(* ===== verification/Prelude.thy ===== *)
theory Prelude
  imports Main
begin

text \<open>
  Shared vocabulary of the development: the JavaScript idioms the sources of
  \<^verbatim>\<open>src/src/product-manager.js\<close> rely on (default parameters, template
  strings, event listener lists), the collections of facts the component
  theories feed to the simplifier, and generic lemmas on lists and folds that
  the component proofs share.
\<close>

named_theorems store_simps \<open>equations of the store: reducers, action creators, dispatch\<close>
named_theorems view_simps \<open>equations of the view templates and of the render steps\<close>

subsection \<open>JavaScript idioms\<close>

text \<open>
  A parameter with a default, \<^verbatim>\<open>(state = dflt, ...) => ...\<close>, receives
  \<open>undefined\<close> on the first call and the caller's value afterwards. The optional
  value \<open>None\<close> stands for \<open>undefined\<close>.
\<close>

definition js_default :: "'a option \<Rightarrow> 'a \<Rightarrow> 'a" where
  "js_default v dflt = (case v of None \<Rightarrow> dflt | Some x \<Rightarrow> x)"

text \<open>A line break inside a template literal, and the indentation that follows it.\<close>

definition nl :: string where
  "nl = [CHR 0x0A]"

definition indent :: "nat \<Rightarrow> string" where
  "indent n = replicate n (CHR '' '')"

text \<open>
  Assigning \<open>undefined\<close> to \<^verbatim>\<open>innerHTML\<close> converts it to a string, as the
  DOM's string conversion does: the element then shows the text
  \<^verbatim>\<open>undefined\<close>.
\<close>

definition js_string_of :: "string option \<Rightarrow> string" where
  "js_string_of v = (case v of None \<Rightarrow> ''undefined'' | Some s \<Rightarrow> s)"

subsection \<open>Lemmas on the idioms\<close>

lemma js_default_None [simp]: "js_default None d = d"
  and js_default_Some [simp]: "js_default (Some x) d = x"
  by (simp_all add: js_default_def)

lemma js_string_of_simps [simp]:
  "js_string_of None = ''undefined''"
  "js_string_of (Some s) = s"
  by (simp_all add: js_string_of_def)

subsection \<open>Folds over listener lists\<close>

text \<open>
  The DOM and the store both call a snapshot of their listener list in order: a
  \<open>fold\<close>. A property every call keeps is kept by the whole fold.
\<close>

lemma fold_preserves [intro]:
  assumes "P s" and "\<And>x s. x \<in> set xs \<Longrightarrow> P s \<Longrightarrow> P (f x s)"
  shows "P (fold f xs s)"
  using assms by (induction xs arbitrary: s) auto

lemma fold_count [simp]: "fold (\<lambda>_ m. Suc m) xs n = n + length xs"
  by (induction xs arbitrary: n) simp_all

subsection \<open>Sorting by a key\<close>

text \<open>Stable sorting splits at a key: the entries up to it come first, in order.\<close>

lemma insort_key_append_left:
  "\<forall>y\<in>set B. f x \<le> f y \<Longrightarrow> insort_key f x (A @ B) = insort_key f x A @ B"
proof (induction A)
  case Nil
  then show ?case by (cases B) auto
qed auto

lemma insort_key_append_right:
  "\<forall>y\<in>set A. f y < (f x :: 'b :: linorder) \<Longrightarrow> insort_key f x (A @ B) = A @ insort_key f x B"
  by (induction A) auto

lemma sort_key_split:
  fixes f :: "'a \<Rightarrow> 'b :: linorder"
  shows "sort_key f xs = sort_key f (filter (\<lambda>x. f x \<le> k) xs) @ sort_key f (filter (\<lambda>x. \<not> f x \<le> k) xs)"
proof (induction xs)
  case Nil
  then show ?case by simp
next
  case (Cons x xs)
  show ?case
  proof (cases "f x \<le> k")
    case True
    have "\<forall>y\<in>set (sort_key f (filter (\<lambda>x. \<not> f x \<le> k) xs)). f x \<le> f y"
      using True by auto
    with True Cons.IH show ?thesis by (simp add: insort_key_append_left)
  next
    case False
    have "\<forall>y\<in>set (sort_key f (filter (\<lambda>x. f x \<le> k) xs)). f y < f x"
      using False by auto
    with False Cons.IH show ?thesis by (simp add: insort_key_append_right)
  qed
qed

end
