(* ===== verification/Store.thy ===== *)
theory Store
  imports Prelude
begin

text \<open>
  The state of \<^verbatim>\<open>src/src/product-manager.js\<close> (lines 4--63 and 167--187):
  the string constants naming pages, request states and action types, the
  default state, the three slice reducers, their combination by
  \<^verbatim>\<open>combineReducers\<close>, and the action creators. All of it is pure: the
  store that holds the state is in \<open>Redux\<close>.
\<close>

subsection \<open>Constants (lines 4--16)\<close>

definition DETAILS :: string where "DETAILS = ''DETAILS''"
definition AVAILABILITY :: string where "AVAILABILITY = ''AVAILABILITY''"

definition READY :: string where "READY = ''READY''"
definition WAITING :: string where "WAITING = ''WAITING''"
definition PRODUCT_UPDATE_ACCEPTED :: string where
  "PRODUCT_UPDATE_ACCEPTED = ''PRODUCT_UPDATE_ACCEPTED''"

subsection \<open>State slices and actions\<close>

text \<open>
  The JavaScript objects \<^verbatim>\<open>{name, title}\<close> and \<^verbatim>\<open>{name, inStock}\<close>; record
  fields carry the slice's name as prefix where two objects share a key.
\<close>

record page =
  page_name :: string
  page_title :: string

record product =
  product_name :: string
  inStock :: bool

text \<open>
  The state tree the store holds is the object \<^verbatim>\<open>combineReducers\<close> builds: one
  key per reducer. There is no \<^verbatim>\<open>requestStatus\<close> key, although
  \<^verbatim>\<open>defaultState\<close> has one.
\<close>

record state =
  page :: page
  product :: product
  productDirty :: bool

text \<open>
  An action is a plain object whose \<^verbatim>\<open>type\<close> selects the reducer branch. The
  three kinds the action creators build carry their payload; \<open>Unknown\<close> is an
  action of any other type, such as the initialisation action Redux dispatches
  inside \<^verbatim>\<open>createStore\<close>.
\<close>

datatype action =
    ChangePage string string
  | ChangeProduct string bool
  | ChangeProductDirty bool
  | Unknown string

definition CHANGE_PAGE :: string where "CHANGE_PAGE = ''CHANGE_PAGE''"
definition CHANGE_PRODUCT :: string where "CHANGE_PRODUCT = ''CHANGE_PRODUCT''"
definition CHANGE_PRODUCT_DIRTY :: string where
  "CHANGE_PRODUCT_DIRTY = ''CHANGE_PRODUCT_DIRTY''"

fun action_type :: "action \<Rightarrow> string" where
  "action_type (ChangePage _ _) = CHANGE_PAGE"
| "action_type (ChangeProduct _ _) = CHANGE_PRODUCT"
| "action_type (ChangeProductDirty _) = CHANGE_PRODUCT_DIRTY"
| "action_type (Unknown t) = t"

subsection \<open>Default state (lines 18--29)\<close>

definition defaultState_page :: page where
  "defaultState_page = \<lparr>page_name = DETAILS, page_title = ''Product Details''\<rparr>"

definition defaultState_product :: product where
  "defaultState_product = \<lparr>product_name = ''Best Product ever!'', inStock = True\<rparr>"

definition defaultState_productDirty :: bool where
  "defaultState_productDirty = False"

definition defaultState_requestStatus :: string where
  "defaultState_requestStatus = READY"

subsection \<open>Reducers (lines 31--63)\<close>

text \<open>Each reducer returns its slice unchanged, or the default on the first call,
  unless the action's type is its own.\<close>

fun pageReducer :: "page option \<Rightarrow> action \<Rightarrow> page" where
  "pageReducer st (ChangePage v t) = \<lparr>page_name = v, page_title = t\<rparr>"
| "pageReducer st (ChangeProduct _ _) = js_default st defaultState_page"
| "pageReducer st (ChangeProductDirty _) = js_default st defaultState_page"
| "pageReducer st (Unknown _) = js_default st defaultState_page"

fun productReducer :: "product option \<Rightarrow> action \<Rightarrow> product" where
  "productReducer st (ChangeProduct v b) = \<lparr>product_name = v, inStock = b\<rparr>"
| "productReducer st (ChangePage _ _) = js_default st defaultState_product"
| "productReducer st (ChangeProductDirty _) = js_default st defaultState_product"
| "productReducer st (Unknown _) = js_default st defaultState_product"

fun productDirtyReducer :: "bool option \<Rightarrow> action \<Rightarrow> bool" where
  "productDirtyReducer st (ChangeProductDirty v) = v"
| "productDirtyReducer st (ChangePage _ _) = js_default st defaultState_productDirty"
| "productDirtyReducer st (ChangeProduct _ _) = js_default st defaultState_productDirty"
| "productDirtyReducer st (Unknown _) = js_default st defaultState_productDirty"

text \<open>
  \<^verbatim>\<open>combineReducers({page, product, productDirty})\<close>: each reducer gets its own
  key of the previous state (\<open>undefined\<close> on the first call) and the action.
\<close>

definition combinedReducers :: "state option \<Rightarrow> action \<Rightarrow> state" where
  "combinedReducers st a =
     \<lparr>page = pageReducer (map_option page st) a,
      product = productReducer (map_option product st) a,
      productDirty = productDirtyReducer (map_option productDirty st) a\<rparr>"

subsection \<open>Action creators (lines 167--187)\<close>

definition changePageAction :: "string \<Rightarrow> string \<Rightarrow> action" where
  "changePageAction name title = ChangePage name title"

definition changeProductAction :: "string \<Rightarrow> bool \<Rightarrow> action" where
  "changeProductAction name b = ChangeProduct name b"

definition changeProductDirtyAction :: "bool \<Rightarrow> action" where
  "changeProductDirtyAction v = ChangeProductDirty v"

subsection \<open>Lemmas on the reducers\<close>

lemma page_names_distinct [simp]:
  "DETAILS \<noteq> AVAILABILITY" "AVAILABILITY \<noteq> DETAILS"
  by (simp_all add: DETAILS_def AVAILABILITY_def)


lemma combinedReducers_Some [store_simps]:
  "combinedReducers (Some s) (ChangePage v t) = s\<lparr>page := \<lparr>page_name = v, page_title = t\<rparr>\<rparr>"
  "combinedReducers (Some s) (ChangeProduct n b) = s\<lparr>product := \<lparr>product_name = n, inStock = b\<rparr>\<rparr>"
  "combinedReducers (Some s) (ChangeProductDirty d) = s\<lparr>productDirty := d\<rparr>"
  "combinedReducers (Some s) (Unknown x) = s"
  by (simp_all add: combinedReducers_def)

lemmas action_creators [store_simps] =
  changePageAction_def changeProductAction_def changeProductDirtyAction_def

subsection \<open>Properties of the reducers\<close>

text \<open>
  C5. Routing: the root reducer sends an action to exactly one slice. A page
  change replaces the page slice with a fresh object built from its payload, a
  product change the product slice, a dirty change the flag; every other
  action type leaves the whole state as it was, and never fails.
\<close>

theorem combinedReducers_routes:
  "combinedReducers (Some s) a =
     (case a of
        ChangePage v t \<Rightarrow> s\<lparr>page := \<lparr>page_name = v, page_title = t\<rparr>\<rparr>
      | ChangeProduct n b \<Rightarrow> s\<lparr>product := \<lparr>product_name = n, inStock = b\<rparr>\<rparr>
      | ChangeProductDirty d \<Rightarrow> s\<lparr>productDirty := d\<rparr>
      | Unknown _ \<Rightarrow> s)"
  by (cases a) (simp_all add: combinedReducers_Some)

text \<open>
  C6. Idempotence: dispatching the same action twice gives the same state as
  dispatching it once, for every action and every state.
\<close>

theorem combinedReducers_idempotent:
  "combinedReducers (Some (combinedReducers (Some s) a)) a = combinedReducers (Some s) a"
  by (cases a) (simp_all add: combinedReducers_Some)

text \<open>
  C19. The first call, with the state \<open>undefined\<close>: every slice whose action
  type does not match starts from its default in \<^verbatim>\<open>defaultState\<close>, the
  matching slice from the action's payload; \<^verbatim>\<open>defaultState.requestStatus\<close>
  has no reducer and is not part of the resulting state.
\<close>

theorem combinedReducers_initial:
  "combinedReducers None a =
     \<lparr>page = (case a of ChangePage v t \<Rightarrow> \<lparr>page_name = v, page_title = t\<rparr> | _ \<Rightarrow> defaultState_page),
      product = (case a of ChangeProduct n b \<Rightarrow> \<lparr>product_name = n, inStock = b\<rparr>
                 | _ \<Rightarrow> defaultState_product),
      productDirty = (case a of ChangeProductDirty d \<Rightarrow> d | _ \<Rightarrow> defaultState_productDirty)\<rparr>"
  by (cases a) (simp_all add: combinedReducers_def)

end
