(* ===== verification/Views.thy ===== *)
theory Views
  imports Store
begin

text \<open>
  The content components of \<^verbatim>\<open>src/src/product-manager.js\<close> (lines 70--85): two
  pure functions from a projection of the state to a markup string, written as
  template literals. Their text is reproduced character for character, line
  breaks and indentation included. \<open>attr_value\<close> is how the browser reads the
  double-quoted attribute \<^verbatim>\<open>value="${name}"\<close> back: the value ends at the first
  double quote, since the template does not escape it.
\<close>

definition dq :: char where
  "dq = CHR 0x22"

definition DetailsComponent :: "string \<Rightarrow> string \<Rightarrow> string" where
  \<open>DetailsComponent title name =
     ''<h3>'' @ title @ ''</h3>'' @ nl @
     indent 4 @ ''<form name="details">'' @ nl @
     indent 8 @ ''<label for="name">Name</label>'' @ nl @
     indent 8 @ ''<input type="text" name="productName" value="'' @ name @ ''">'' @ nl @
     indent 4 @ ''</form>''\<close>

definition AvailabilityComponent :: "string \<Rightarrow> bool \<Rightarrow> string" where
  \<open>AvailabilityComponent title in_stock =
     ''<h3>'' @ title @ ''</h3>'' @ nl @
     indent 4 @ ''<form name="availability">'' @ nl @
     indent 8 @ ''<label for="name">'' @ nl @
     indent 12 @ ''<input type="checkbox" name="inStock" value="inStock" '' @
       (if in_stock then ''checked'' else '''') @ ''> In Stock'' @ nl @
     indent 8 @ ''</label>'' @ nl @
     indent 4 @ ''</form>''\<close>

text \<open>
  The value the browser gives the text field for the attribute text \<open>name\<close>
  placed between double quotes. The attribute value ends at the first double
  quote, and the value sanitisation of a text input removes line feeds and
  carriage returns. The tokenizer also decodes character references such as
  \<^verbatim>\<open>&amp;\<close> and replaces NUL characters; that decoding is not modelled.
  \<open>plain_name\<close> marks the names it cannot touch, those without double quote,
  \<^verbatim>\<open>&\<close>, line break or NUL. For them the reading below is exact, and every
  theorem that depends on the reading is stated for them.
\<close>

definition attr_value :: "string \<Rightarrow> string" where
  "attr_value name = filter (\<lambda>c. c \<noteq> CHR 0x0A \<and> c \<noteq> CHR 0x0D) (takeWhile (\<lambda>c. c \<noteq> dq) name)"

definition plain_name :: "string \<Rightarrow> bool" where
  "plain_name name =
     list_all (\<lambda>c. c \<noteq> dq \<and> c \<noteq> CHR ''&'' \<and> c \<noteq> CHR 0x0A \<and> c \<noteq> CHR 0x0D \<and> c \<noteq> CHR 0x00) name"

lemma attr_value_plain [simp]: "plain_name name \<Longrightarrow> attr_value name = name"
  by (induction name) (auto simp: attr_value_def plain_name_def)

lemma attr_value_idem [simp]: "attr_value (attr_value name) = attr_value name"
  by (induction name) (auto simp: attr_value_def)

end
