(* ===== verification/Render.thy ===== *)
theory Render
  imports Views
begin

text \<open>
  The document of the page and \<^verbatim>\<open>render\<close> (\<^verbatim>\<open>src/src/product-manager.js\<close>,
  lines 87--165). The document is a record with one field per DOM property the
  code writes: the product title, the \<^verbatim>\<open>active\<close> class of the two navigation
  buttons, the save button's \<^verbatim>\<open>disabled\<close> flag, the content container's
  markup, the form control that markup creates and the control's listeners, and
  the click listeners bound at start-up. \<open>render\<close> is written as the sequence
  of its steps; its lemmas say which field each step writes.
\<close>

subsection \<open>The document\<close>

text \<open>The form control the content markup creates, with its current value.\<close>

datatype control = TextInput string | Checkbox bool

text \<open>
  A listener attached by \<open>render\<close> is a closure over the \<^verbatim>\<open>product\<close> and
  \<^verbatim>\<open>productDirty\<close> that \<open>render\<close> read: a blur listener on the name field or
  a change listener on the check box.
\<close>

datatype handler = BlurHandler product bool | ChangeHandler product bool

datatype elem = BtnDetailsLink | BtnAvailabilityLink | BtnSave

datatype click_handler = OnDetailsLink | OnAvailabilityLink | OnSave

record dom =
  product_title :: string
  btn_details_active :: bool
  btn_availability_active :: bool
  btn_save_disabled :: bool
  content :: string
  content_control :: "control option"
  control_listeners :: "handler list"
  click_listeners :: "(elem \<times> click_handler) list"

subsection \<open>render (lines 87--165), step by step\<close>

definition setProductTitle :: "state \<Rightarrow> dom \<Rightarrow> dom" where
  "setProductTitle st d = d\<lparr>product_title := product_name (product st)\<rparr>"

definition setActiveNav :: "state \<Rightarrow> dom \<Rightarrow> dom" where
  "setActiveNav st d =
     (let d' = d\<lparr>btn_details_active := False, btn_availability_active := False\<rparr>
      in if page_name (page st) = DETAILS then d'\<lparr>btn_details_active := True\<rparr>
         else if page_name (page st) = AVAILABILITY then d'\<lparr>btn_availability_active := True\<rparr>
         else d')"

text \<open>
  \<^verbatim>\<open>requestStatus\<close> is destructured from a state object that has no such key:
  it is \<open>undefined\<close>, the value \<open>None\<close> here.
\<close>

definition setSaveDisabled :: "state \<Rightarrow> string option \<Rightarrow> dom \<Rightarrow> dom" where
  "setSaveDisabled st requestStatus d =
     d\<lparr>btn_save_disabled := (\<not> productDirty st \<or> requestStatus = Some WAITING)\<rparr>"

text \<open>
  The markup for the current page and the control it creates; \<open>None\<close> is the
  \<open>undefined\<close> that \<^verbatim>\<open>renderedContent\<close> keeps when no case matches.
\<close>

definition renderedContent :: "state \<Rightarrow> (string \<times> control) option" where
  "renderedContent st =
     (if page_name (page st) = DETAILS then
        Some (DetailsComponent (page_title (page st)) (product_name (product st)),
              TextInput (attr_value (product_name (product st))))
      else if page_name (page st) = AVAILABILITY then
        Some (AvailabilityComponent (page_title (page st)) (inStock (product st)),
              Checkbox (inStock (product st)))
      else None)"

text \<open>
  Assigning \<^verbatim>\<open>innerHTML\<close> replaces the container's children by fresh nodes:
  the new control has no listener.
\<close>

definition set_innerHTML :: "(string \<times> control) option \<Rightarrow> dom \<Rightarrow> dom" where
  "set_innerHTML rc d =
     d\<lparr>content := js_string_of (map_option fst rc),
       content_control := map_option snd rc,
       control_listeners := []\<rparr>"

definition addEventListener :: "handler \<Rightarrow> dom \<Rightarrow> dom" where
  "addEventListener h d = d\<lparr>control_listeners := control_listeners d @ [h]\<rparr>"

definition attachControlListener :: "state \<Rightarrow> dom \<Rightarrow> dom" where
  "attachControlListener st d =
     (if page_name (page st) = DETAILS then
        addEventListener (BlurHandler (product st) (productDirty st)) d
      else if page_name (page st) = AVAILABILITY then
        addEventListener (ChangeHandler (product st) (productDirty st)) d
      else d)"

definition render :: "state \<Rightarrow> dom \<Rightarrow> dom" where
  "render st d =
     (let requestStatus = None
      in attachControlListener st
           (set_innerHTML (renderedContent st)
              (setSaveDisabled st requestStatus
                 (setActiveNav st (setProductTitle st d)))))"

text \<open>
  The document of the page before the script runs (the page's HTML is not part
  of the sources): the regions the script writes, empty, and no listener.
\<close>

definition index_dom :: dom where
  "index_dom =
     \<lparr>product_title = [], btn_details_active = False, btn_availability_active = False,
      btn_save_disabled = False, content = [], content_control = None,
      control_listeners = [], click_listeners = []\<rparr>"

subsection \<open>Lemmas on render\<close>

lemmas render_steps [view_simps] =
  render_def setProductTitle_def setActiveNav_def setSaveDisabled_def
  set_innerHTML_def addEventListener_def attachControlListener_def

text \<open>
  The document after \<open>render\<close>, field by field: only \<open>click_listeners\<close> is
  kept from the document before.
\<close>

lemma render_fields [simp]:
  "product_title (render st d) = product_name (product st)"
  "btn_details_active (render st d) = (page_name (page st) = DETAILS)"
  "btn_availability_active (render st d) = (page_name (page st) = AVAILABILITY)"
  "btn_save_disabled (render st d) = (\<not> productDirty st)"
  "content (render st d) = js_string_of (map_option fst (renderedContent st))"
  "content_control (render st d) = map_option snd (renderedContent st)"
  "control_listeners (render st d) =
     (if page_name (page st) = DETAILS then [BlurHandler (product st) (productDirty st)]
      else if page_name (page st) = AVAILABILITY then [ChangeHandler (product st) (productDirty st)]
      else [])"
  "click_listeners (render st d) = click_listeners d"
  by (simp_all add: render_steps Let_def)

lemma render_render [simp]: "render st (render st' d) = render st d"
  by (simp add: render_steps Let_def)

lemma synced_field: "d = render st d \<Longrightarrow> f d = f (render st d)"
  by (rule arg_cong)

subsection \<open>Properties of render\<close>

text \<open>
  C9. A page name other than the two panels' makes render write the text
  \<^verbatim>\<open>undefined\<close> into the content container (the unassigned
  \<^verbatim>\<open>renderedContent\<close>), leave no form control and no listener, and mark no
  navigation button active.
\<close>

theorem render_unknown_page:
  assumes "page_name (page st) \<noteq> DETAILS" and "page_name (page st) \<noteq> AVAILABILITY"
  shows "content (render st d) = ''undefined'' \<and> content_control (render st d) = None \<and>
         control_listeners (render st d) = [] \<and>
         \<not> btn_details_active (render st d) \<and> \<not> btn_availability_active (render st d)"
  using assms by (simp add: renderedContent_def)

theorem render_unknown_page_witness:
  "page_name (page \<lparr>page = \<lparr>page_name = ''HOME'', page_title = ''Home''\<rparr>,
                     product = defaultState_product, productDirty = False\<rparr>) \<noteq> DETAILS \<and>
   page_name (page \<lparr>page = \<lparr>page_name = ''HOME'', page_title = ''Home''\<rparr>,
                     product = defaultState_product, productDirty = False\<rparr>) \<noteq> AVAILABILITY \<and>
   content (render \<lparr>page = \<lparr>page_name = ''HOME'', page_title = ''Home''\<rparr>,
                     product = defaultState_product, productDirty = False\<rparr> index_dom) = ''undefined''"
proof -
  have h: "page_name (page \<lparr>page = \<lparr>page_name = ''HOME'', page_title = ''Home''\<rparr>,
                     product = defaultState_product, productDirty = False\<rparr>) \<noteq> DETAILS"
          "page_name (page \<lparr>page = \<lparr>page_name = ''HOME'', page_title = ''Home''\<rparr>,
                     product = defaultState_product, productDirty = False\<rparr>) \<noteq> AVAILABILITY"
    by (simp_all add: DETAILS_def AVAILABILITY_def)
  show ?thesis using h render_unknown_page [OF h, of index_dom] by blast
qed


end
