(* ===== verification/Redux.thy ===== *)
theory Redux
  imports Store "HOL-Library.Multiset"
begin

text \<open>
  The store of \<^verbatim>\<open>src/src/product-manager.js\<close> (lines 65--68):
  \<^verbatim>\<open>createStore(combinedReducers, applyMiddleware(logger()))\<close>, the constant
  \<open>store\<close>. Redux (version 4) and redux-logger (version 2) are libraries the
  source only calls, modelled from their documented contract. The record
  \<open>redux_store\<close> holds the variables of Redux's store: the state, the current
  reducer, the listener array, and the \<^verbatim>\<open>isSubscribed\<close> flags of the
  \<^verbatim>\<open>unsubscribe\<close> closures that are still true. Beside them it holds the
  logger's console output. The operations are:
  \<^item> \<open>createStore\<close> and \<open>getState\<close>;
  \<^item> \<open>subscribe\<close>, which returns its \<open>unsubscribe\<close> handle;
  \<^item> \<open>unsubscribe\<close>, with its guard and \<^verbatim>\<open>indexOf\<close>/\<^verbatim>\<open>splice\<close>;
  \<^item> Redux's dispatch \<open>core_dispatch\<close>, which reduces with the current
    reducer and calls a snapshot of the subscribers in order;
  \<^item> \<open>replaceReducer\<close>;
  \<^item> the middleware \<open>logger\<close>, and \<open>dispatch\<close>, the two composed as
    \<^verbatim>\<open>applyMiddleware\<close> composes them.

  The subscribers are a type variable \<open>'l\<close> and their effect a function
  \<open>run\<close> on an outer world \<open>'w\<close>. The store's lemmas hold for any
  subscriber, and the controller instantiates them with its render function.
\<close>

subsection \<open>The Redux store (lines 65--68)\<close>

type_synonym log_entry = "action \<times> state \<times> state"

type_synonym reducer = "state option \<Rightarrow> action \<Rightarrow> state"

text \<open>
  The function \<^verbatim>\<open>subscribe(listener)\<close> returns: a closure over the listener
  and its own \<^verbatim>\<open>isSubscribed\<close> flag. The flag is kept in the store below,
  under the subscription's number.
\<close>

datatype 'l subscription = Unsubscribe nat 'l

text \<open>
  The store's variables: \<^verbatim>\<open>currentState\<close>, \<^verbatim>\<open>currentReducer\<close>, the
  listener array, the subscriptions whose \<^verbatim>\<open>isSubscribed\<close> flag is still
  true (with their listeners) and the next subscription number; and the
  console output of the logger.
\<close>

record 'l redux_store =
  store_state :: state
  store_reducer :: reducer
  store_listeners :: "'l list"
  store_subs :: "(nat \<times> 'l) list"
  store_next_sub :: nat
  store_log :: "log_entry list"

text \<open>
  Redux's private action types. The random suffix Redux appends to them is
  left out: no reducer of the program matches either type.
\<close>

definition INIT :: action where
  "INIT = Unknown ''@@redux/INIT''"

definition REPLACE :: action where
  "REPLACE = Unknown ''@@redux/REPLACE''"

text \<open>\<^verbatim>\<open>createStore(reducer)\<close>: the initial state is the reducer's answer to
  \<^verbatim>\<open>INIT\<close> on the state \<open>undefined\<close>.\<close>

definition createStore :: "reducer \<Rightarrow> 'l redux_store" where
  "createStore r =
     \<lparr>store_state = r None INIT, store_reducer = r, store_listeners = [], store_subs = [],
      store_next_sub = 0, store_log = []\<rparr>"

definition getState :: "'l redux_store \<Rightarrow> state" where
  "getState s = store_state s"

definition subscribe :: "'l \<Rightarrow> 'l redux_store \<Rightarrow> 'l redux_store \<times> 'l subscription" where
  "subscribe l s =
     (s\<lparr>store_listeners := store_listeners s @ [l],
        store_subs := store_subs s @ [(store_next_sub s, l)],
        store_next_sub := Suc (store_next_sub s)\<rparr>,
      Unsubscribe (store_next_sub s) l)"

text \<open>
  \<^verbatim>\<open>nextListeners.splice(nextListeners.indexOf(listener), 1)\<close>: the first
  occurrence is removed; an absent listener gives the index \<open>-1\<close>, and
  \<^verbatim>\<open>splice(-1, 1)\<close> removes the last element.
\<close>

definition splice_indexOf :: "'l \<Rightarrow> 'l list \<Rightarrow> 'l list" where
  "splice_indexOf l xs = (if l \<in> set xs then remove1 l xs else butlast xs)"

text \<open>The returned \<^verbatim>\<open>unsubscribe()\<close>: nothing once its flag is false.\<close>

fun unsubscribe :: "'l subscription \<Rightarrow> 'l redux_store \<Rightarrow> 'l redux_store" where
  "unsubscribe (Unsubscribe n l) s =
     (if (n, l) \<notin> set (store_subs s) then s
      else s\<lparr>store_subs := removeAll (n, l) (store_subs s),
             store_listeners := splice_indexOf l (store_listeners s)\<rparr>)"

text \<open>
  Redux's own \<^verbatim>\<open>dispatch\<close>: the store reduces the action with its current
  reducer, then calls each subscriber of the snapshot in order (\<open>run l st w\<close>
  is the effect of subscriber \<open>l\<close> reading the new state \<open>st\<close> from
  \<^verbatim>\<open>getState()\<close>).
\<close>

definition core_dispatch ::
  "('l \<Rightarrow> state \<Rightarrow> 'w \<Rightarrow> 'w) \<Rightarrow> action \<Rightarrow> 'l redux_store \<times> 'w \<Rightarrow> 'l redux_store \<times> 'w" where
  "core_dispatch run a sw =
     (case sw of (s, w) \<Rightarrow>
        let next = store_reducer s (Some (store_state s)) a
        in (s\<lparr>store_state := next\<rparr>, fold (\<lambda>l. run l next) (store_listeners s) w))"

text \<open>
  \<^verbatim>\<open>replaceReducer(nextReducer)\<close>: the reducer is replaced and
  \<^verbatim>\<open>REPLACE\<close> dispatched with the store's own dispatch. The middleware
  wraps only the \<^verbatim>\<open>dispatch\<close> that \<^verbatim>\<open>applyMiddleware\<close> returns, so this
  dispatch is not logged.
\<close>

definition replaceReducer ::
  "reducer \<Rightarrow> ('l \<Rightarrow> state \<Rightarrow> 'w \<Rightarrow> 'w) \<Rightarrow> 'l redux_store \<times> 'w \<Rightarrow> 'l redux_store \<times> 'w" where
  "replaceReducer r run sw = core_dispatch run REPLACE ((fst sw)\<lparr>store_reducer := r\<rparr>, snd sw)"

text \<open>
  The redux-logger middleware: it reads the state, passes the action on to
  \<open>next\<close>, reads the state again once \<open>next\<close> has returned (after every
  subscriber ran), and records the action with both states.
\<close>

definition logger ::
  "(action \<Rightarrow> 'l redux_store \<times> 'w \<Rightarrow> 'l redux_store \<times> 'w) \<Rightarrow> action \<Rightarrow> 'l redux_store \<times> 'w \<Rightarrow> 'l redux_store \<times> 'w" where
  "logger next a sw =
     (let prev = getState (fst sw);
          (s', w') = next a sw
      in (s'\<lparr>store_log := store_log s' @ [(a, prev, getState s')]\<rparr>, w'))"

text \<open>
  \<^verbatim>\<open>store.dispatch\<close> of \<^verbatim>\<open>createStore(combinedReducers,
  applyMiddleware(logger()))\<close>: the logger wrapped around Redux's dispatch.
  (\<^verbatim>\<open>logger()\<close> is the middleware factory of redux-logger 2; the store's
  initial \<^verbatim>\<open>@@redux/INIT\<close> dispatch happens before the middleware is applied and
  is not logged.)
\<close>

definition dispatch ::
  "('l \<Rightarrow> state \<Rightarrow> 'w \<Rightarrow> 'w) \<Rightarrow> action \<Rightarrow> 'l redux_store \<times> 'w \<Rightarrow> 'l redux_store \<times> 'w" where
  "dispatch run = logger (core_dispatch run)"

text \<open>The store of the program: \<^verbatim>\<open>createStore(combinedReducers, ...)\<close>.\<close>

definition store :: "'l redux_store" where
  "store = createStore combinedReducers"

text \<open>A sequence of dispatches, one after the other.\<close>

definition dispatch_all ::
  "('l \<Rightarrow> state \<Rightarrow> 'w \<Rightarrow> 'w) \<Rightarrow> action list \<Rightarrow> 'l redux_store \<times> 'w \<Rightarrow> 'l redux_store \<times> 'w" where
  "dispatch_all run as sw = fold (dispatch run) as sw"

text \<open>
  The log a sequence of actions should leave, from a starting state: each
  action with the state before it and the state the reducer \<open>r\<close> computes.
\<close>

fun log_of :: "reducer \<Rightarrow> state \<Rightarrow> action list \<Rightarrow> log_entry list" where
  "log_of r st [] = []"
| "log_of r st (a # as) = (a, st, r (Some st) a) # log_of r (r (Some st) a) as"

text \<open>
  The subscriptions are consistent: the listener array holds exactly the
  listeners of the live subscriptions, each subscription number is used once
  and is below the next one.
\<close>

definition subs_ok :: "'l redux_store \<Rightarrow> bool" where
  "subs_ok s =
     (mset (store_listeners s) = mset (map snd (store_subs s)) \<and>
      distinct (map fst (store_subs s)) \<and> list_all (\<lambda>p. fst p < store_next_sub s) (store_subs s))"

subsection \<open>Lemmas on the store\<close>

lemma store_fields [simp]:
  "store_state store =
     \<lparr>page = defaultState_page, product = defaultState_product,
      productDirty = defaultState_productDirty\<rparr>"
  "store_reducer store = combinedReducers"
  "store_listeners store = []" "store_subs store = []" "store_next_sub store = 0"
  "store_log store = []"
  by (simp_all add: store_def createStore_def combinedReducers_def INIT_def)

lemma subscribe_fields [simp]:
  "store_state (fst (subscribe l s)) = store_state s"
  "store_reducer (fst (subscribe l s)) = store_reducer s"
  "store_listeners (fst (subscribe l s)) = store_listeners s @ [l]"
  "store_subs (fst (subscribe l s)) = store_subs s @ [(store_next_sub s, l)]"
  "store_next_sub (fst (subscribe l s)) = Suc (store_next_sub s)"
  "store_log (fst (subscribe l s)) = store_log s"
  "snd (subscribe l s) = Unsubscribe (store_next_sub s) l"
  by (simp_all add: subscribe_def)

text \<open>The composed dispatch in one step: reduce, notify, log.\<close>

lemma dispatch_eq:
  "dispatch run a sw =
     (case sw of (s, w) \<Rightarrow>
        let prev = store_state s;
            next = store_reducer s (Some (store_state s)) a;
            w' = fold (\<lambda>l. run l next) (store_listeners s) w
        in (s\<lparr>store_state := next, store_log := store_log s @ [(a, prev, next)]\<rparr>, w'))"
  by (cases sw) (simp add: dispatch_def logger_def core_dispatch_def getState_def Let_def)

lemma dispatch_fst [store_simps]:
  "fst (dispatch run a (s, w)) =
     s\<lparr>store_state := store_reducer s (Some (store_state s)) a,
       store_log := store_log s @ [(a, store_state s, store_reducer s (Some (store_state s)) a)]\<rparr>"
  by (simp add: dispatch_eq Let_def)

lemma dispatch_snd [store_simps]:
  "snd (dispatch run a (s, w)) =
     fold (\<lambda>l. run l (store_reducer s (Some (store_state s)) a)) (store_listeners s) w"
  by (simp add: dispatch_eq Let_def)

lemma dispatch_state [simp]:
  "store_state (fst (dispatch run a sw)) = store_reducer (fst sw) (Some (store_state (fst sw))) a"
  by (cases sw) (simp add: dispatch_eq Let_def)

lemma dispatch_unchanged [simp]:
  "store_listeners (fst (dispatch run a sw)) = store_listeners (fst sw)"
  "store_reducer (fst (dispatch run a sw)) = store_reducer (fst sw)"
  "store_subs (fst (dispatch run a sw)) = store_subs (fst sw)"
  "store_next_sub (fst (dispatch run a sw)) = store_next_sub (fst sw)"
  by (cases sw; simp add: dispatch_eq Let_def)+

lemma dispatch_log [simp]:
  "store_log (fst (dispatch run a sw)) =
     store_log (fst sw) @ [(a, store_state (fst sw), store_state (fst (dispatch run a sw)))]"
  by (cases sw) (simp add: dispatch_eq Let_def)

lemma dispatch_all_Cons [simp]:
  "dispatch_all run (a # as) sw = dispatch_all run as (dispatch run a sw)"
  "dispatch_all run [] sw = sw"
  by (simp_all add: dispatch_all_def)

lemma dispatch_all_listeners [simp]:
  "store_listeners (fst (dispatch_all run as sw)) = store_listeners (fst sw)"
  by (induction as arbitrary: sw) simp_all

subsection \<open>Lemmas on subscriptions\<close>

lemma subs_ok_store [simp]: "subs_ok store"
  by (simp add: subs_ok_def)

lemma subs_ok_subscribe: "subs_ok s \<Longrightarrow> subs_ok (fst (subscribe l s))"
  by (auto simp: subs_ok_def list_all_iff)

lemma subs_ok_dispatch: "subs_ok (fst (dispatch run a sw)) = subs_ok (fst sw)"
  by (simp add: subs_ok_def)

text \<open>A live subscription's listener is in the array: \<^verbatim>\<open>indexOf\<close> finds it.\<close>

lemma subs_ok_listener:
  assumes "subs_ok s" and "(n, l) \<in> set (store_subs s)"
  shows "l \<in> set (store_listeners s)"
proof -
  have "l \<in> set (map snd (store_subs s))" using assms(2) by (metis image_eqI snd_conv set_map)
  moreover have "set (store_listeners s) = set (map snd (store_subs s))"
    using assms(1) unfolding subs_ok_def by (metis mset_map mset_eq_setD)
  ultimately show ?thesis by simp
qed

lemma removeAll_distinct_fst:
  assumes "distinct (map fst ps)" and "(n, l) \<in> set ps"
  shows "image_mset snd (mset (removeAll (n, l) ps)) = image_mset snd (mset ps) - {#l#}"
    and "distinct (map fst (removeAll (n, l) ps))"
proof -
  have "distinct ps" using assms(1) by (simp add: distinct_map)
  then have r: "removeAll (n, l) ps = remove1 (n, l) ps" by (simp add: distinct_remove1_removeAll)
  have "{#(n, l)#} \<subseteq># mset ps" using assms(2) by simp
  then show "image_mset snd (mset (removeAll (n, l) ps)) = image_mset snd (mset ps) - {#l#}"
    by (simp add: r image_mset_Diff)
  show "distinct (map fst (removeAll (n, l) ps))"
    using assms(1) by (simp add: removeAll_filter_not_eq distinct_map_filter)
qed

lemma subs_ok_unsubscribe: "subs_ok s \<Longrightarrow> subs_ok (unsubscribe u s)"
proof (cases u)
  case (Unsubscribe n l)
  assume ok: "subs_ok s"
  show ?thesis
  proof (cases "(n, l) \<in> set (store_subs s)")
    case True
    then have "l \<in> set (store_listeners s)" using subs_ok_listener [OF ok] by blast
    with True ok Unsubscribe show ?thesis
      by (simp add: subs_ok_def splice_indexOf_def removeAll_distinct_fst list_all_iff)
  qed (use ok Unsubscribe in simp)
qed

text \<open>A second call of the same \<^verbatim>\<open>unsubscribe\<close> does nothing: its flag is false.\<close>

lemma unsubscribe_idem: "unsubscribe u (unsubscribe u s) = unsubscribe u s"
  by (cases u) simp

text \<open>
  On a live subscription \<^verbatim>\<open>indexOf\<close> finds the listener, so the
  \<^verbatim>\<open>splice(-1, 1)\<close> branch is never taken.
\<close>

lemma unsubscribe_live:
  assumes "subs_ok s" and "(n, l) \<in> set (store_subs s)"
  shows "store_listeners (unsubscribe (Unsubscribe n l) s) = remove1 l (store_listeners s)"
    and "store_subs (unsubscribe (Unsubscribe n l) s) = removeAll (n, l) (store_subs s)"
  using assms subs_ok_listener [OF assms] by (simp_all add: splice_indexOf_def)

lemma subs_ok_replaceReducer: "subs_ok (fst (replaceReducer r run sw)) = subs_ok (fst sw)"
  by (cases sw) (simp add: replaceReducer_def core_dispatch_def subs_ok_def Let_def)

subsection \<open>Properties of the store\<close>

text \<open>
  C7. No batching, no coalescing: over any sequence of dispatched actions,
  every subscriber is called once per action. Counting the calls in the world
  (\<open>run\<close> adds one per call) gives the number of actions times the number of
  subscribers.
\<close>

theorem dispatch_all_notifications:
  "snd (dispatch_all (\<lambda>_ _ n. Suc n) as (s, n)) = n + length as * length (store_listeners s)"
proof (induction as arbitrary: s n)
  case Nil
  then show ?case by simp
next
  case (Cons a as)
  let ?d = "dispatch (\<lambda>_ _ n. Suc n) a (s, n)"
  have "snd ?d = n + length (store_listeners s)"
    by (simp add: dispatch_snd fold_count)
  then have "?d = (fst ?d, n + length (store_listeners s))"
    by (metis prod.collapse)
  then show ?case
    using Cons.IH [of "fst ?d" "n + length (store_listeners s)"] by simp
qed

text \<open>
  C8. The logger's output is exactly the dispatched actions, each once and in
  dispatch order, each with the state before it and the state the store's
  reducer computed from it; the entries chain, every state after being the next
  one's state before, and the last is the store's state.
\<close>

theorem dispatch_all_log:
  "store_log (fst (dispatch_all run as (s, w))) =
     store_log s @ log_of (store_reducer s) (store_state s) as \<and>
   store_state (fst (dispatch_all run as (s, w))) =
     fold (\<lambda>a st. store_reducer s (Some st) a) as (store_state s)"
proof (induction as arbitrary: s w)
  case Nil
  then show ?case by simp
next
  case (Cons a as)
  obtain s' w' where d: "dispatch run a (s, w) = (s', w')" by fastforce
  have "store_log s' = store_log s @ [(a, store_state s, store_reducer s (Some (store_state s)) a)]"
    and "store_state s' = store_reducer s (Some (store_state s)) a"
    and "store_reducer s' = store_reducer s"
    using dispatch_log [of run a "(s, w)"] dispatch_state [of run a "(s, w)"]
      dispatch_unchanged(2) [of run a "(s, w)"] d by simp_all
  with Cons.IH [of s' w'] d show ?case by simp
qed

end
