(* ===== verification/Controller.thy ===== *)
theory Controller
  imports Render Redux
begin

text \<open>
  The controller of \<^verbatim>\<open>src/src/product-manager.js\<close>: the listeners
  \<open>render\<close> attaches to the form control it has just inserted (lines
  131--164), the three listeners bound once at start-up to the navigation links
  and the save button (lines 189--216), and the start-up sequence (lines
  218--221). The system is the store paired with the document of
  \<open>Render\<close>. A user event runs the listeners of its target in order, over a
  snapshot of the target's listener list, as the DOM does; every listener that
  dispatches makes the store call \<open>render\<close>, its only subscriber. The
  reachable systems are an inductive predicate; the invariant \<open>sys_inv\<close>
  holds in all of them. The event lemmas say what each user action does to the
  store; the properties of the loop, in \<open>Loop\<close>, follow from both. Two
  definitions serve only to state properties: \<open>fire_fresh\<close>, the listeners
  as they would read with the store read at event time, and
  \<open>handler_fits\<close>, which listener kind belongs on which control.
\<close>

subsection \<open>The system\<close>

text \<open>Subscribers of the store: the code subscribes \<^verbatim>\<open>render\<close> and nothing else.\<close>

datatype subscriber = Render

type_synonym sys = "subscriber redux_store \<times> dom"

subsection \<open>The store's subscriber and the listeners that dispatch\<close>

definition run_subscriber :: "subscriber \<Rightarrow> state \<Rightarrow> dom \<Rightarrow> dom" where
  "run_subscriber l st d = (case l of Render \<Rightarrow> render st d)"

abbreviation store_dispatch :: "action \<Rightarrow> sys \<Rightarrow> sys" where
  "store_dispatch a \<equiv> dispatch run_subscriber a"

text \<open>The event a form control delivers to its listeners, with the value it reads.\<close>

datatype control_event = Blur string | Change bool

text \<open>
  The blur listener (lines 134--146) and the change listener (lines 149--161):
  mark the product dirty unless the captured flag says it already is, then
  dispatch the product with the edited field and the other field as captured.
  A listener only runs for the event type it was registered for.
\<close>

fun fire_handler :: "handler \<Rightarrow> control_event \<Rightarrow> sys \<Rightarrow> sys" where
  "fire_handler (BlurHandler pr dirty) (Blur v) x =
     (let x1 = (if \<not> dirty then store_dispatch (changeProductDirtyAction True) x else x)
      in store_dispatch (changeProductAction v (inStock pr)) x1)"
| "fire_handler (ChangeHandler pr dirty) (Change c) x =
     (let x1 = (if \<not> dirty then store_dispatch (changeProductDirtyAction True) x else x)
      in store_dispatch (changeProductAction (product_name pr) c) x1)"
| "fire_handler (BlurHandler _ _) (Change _) x = x"
| "fire_handler (ChangeHandler _ _) (Blur _) x = x"

text \<open>The listeners bound once at start-up (lines 189--216).\<close>

fun fire_click :: "click_handler \<Rightarrow> sys \<Rightarrow> sys" where
  "fire_click OnDetailsLink x =
     (if page_name (page (getState (fst x))) = DETAILS then x
      else store_dispatch (changePageAction DETAILS ''Product Details'') x)"
| "fire_click OnAvailabilityLink x =
     (if page_name (page (getState (fst x))) = AVAILABILITY then x
      else store_dispatch (changePageAction AVAILABILITY ''Product Availability'') x)"
| "fire_click OnSave x = store_dispatch (changeProductDirtyAction False) x"

subsection \<open>User events\<close>

text \<open>
  A click runs the click listeners of its element, in registration order; a
  disabled button receives no click. An event on the content's control runs the
  control's listeners. In both cases the list is the one the target has when
  the event starts: listeners that a listener's dispatch removes or adds (by
  re-rendering) do not change the run.
\<close>

definition click :: "elem \<Rightarrow> sys \<Rightarrow> sys" where
  "click e x =
     (if e = BtnSave \<and> btn_save_disabled (snd x) then x
      else fold fire_click (map snd (filter (\<lambda>p. fst p = e) (click_listeners (snd x)))) x)"

definition fire_control :: "control_event \<Rightarrow> sys \<Rightarrow> sys" where
  "fire_control ev x = fold (\<lambda>h. fire_handler h ev) (control_listeners (snd x)) x"

definition set_control :: "control \<Rightarrow> sys \<Rightarrow> sys" where
  "set_control c x = (fst x, (snd x)\<lparr>content_control := Some c\<rparr>)"

text \<open>
  The user's actions: a click; typing a name into the text field and leaving
  it; leaving the text field without typing; toggling the check box. An action
  on a control the page does not show does nothing.
\<close>

datatype ui_event = Click elem | EditProductName string | BlurProductName | ToggleInStock

fun ui_step :: "sys \<Rightarrow> ui_event \<Rightarrow> sys" where
  "ui_step x (Click e) = click e x"
| "ui_step x (EditProductName v) =
     (case content_control (snd x) of
        Some (TextInput _) \<Rightarrow> fire_control (Blur v) (set_control (TextInput v) x)
      | _ \<Rightarrow> x)"
| "ui_step x BlurProductName =
     (case content_control (snd x) of
        Some (TextInput v) \<Rightarrow> fire_control (Blur v) x
      | _ \<Rightarrow> x)"
| "ui_step x ToggleInStock =
     (case content_control (snd x) of
        Some (Checkbox c) \<Rightarrow> fire_control (Change (\<not> c)) (set_control (Checkbox (\<not> c)) x)
      | _ \<Rightarrow> x)"

fun ui_run :: "sys \<Rightarrow> ui_event list \<Rightarrow> sys" where
  "ui_run x [] = x"
| "ui_run x (e # es) = ui_run (ui_step x e) es"

subsection \<open>Start-up (lines 65--68 and 189--221)\<close>

definition addClickListener :: "elem \<Rightarrow> click_handler \<Rightarrow> dom \<Rightarrow> dom" where
  "addClickListener e h d = d\<lparr>click_listeners := click_listeners d @ [(e, h)]\<rparr>"

definition bindNavigation :: "dom \<Rightarrow> dom" where
  "bindNavigation d =
     addClickListener BtnSave OnSave
       (addClickListener BtnAvailabilityLink OnAvailabilityLink
          (addClickListener BtnDetailsLink OnDetailsLink d))"

definition main :: "dom \<Rightarrow> sys" where
  "main d0 =
     (let s0 = store;
          d1 = bindNavigation d0;
          d2 = render (getState s0) d1
      in (fst (subscribe Render s0), d2))"

text \<open>
  The reachable systems: the start-up on a document with no listener yet, and
  everything the user's actions lead to from there.
\<close>

inductive reachable :: "sys \<Rightarrow> bool" where
  start: "click_listeners d0 = [] \<Longrightarrow> reachable (main d0)"
| step: "reachable x \<Longrightarrow> reachable (ui_step x e)"


subsection \<open>The invariant of the loop\<close>

definition static_bindings :: "(elem \<times> click_handler) list" where
  "static_bindings =
     [(BtnDetailsLink, OnDetailsLink), (BtnAvailabilityLink, OnAvailabilityLink), (BtnSave, OnSave)]"

text \<open>The page slice names one of the two panels, with that panel's title.\<close>

definition page_ok :: "page \<Rightarrow> bool" where
  "page_ok p =
     ((page_name p = DETAILS \<and> page_title p = ''Product Details'') \<or>
      (page_name p = AVAILABILITY \<and> page_title p = ''Product Availability''))"

definition action_ok :: "action \<Rightarrow> bool" where
  "action_ok a = (case a of ChangePage v t \<Rightarrow> page_ok \<lparr>page_name = v, page_title = t\<rparr> | _ \<Rightarrow> True)"

text \<open>
  \<open>core_inv\<close>: render is the store's only subscriber, each static element has
  its one listener, the page is one of the two panels. \<open>sys_inv\<close> adds that the
  document is what \<open>render\<close> makes of the current state: rendering again would
  change nothing.
\<close>

definition core_inv :: "sys \<Rightarrow> bool" where
  "core_inv x =
     (store_listeners (fst x) = [Render] \<and> store_subs (fst x) = [(0, Render)] \<and>
      store_next_sub (fst x) = 1 \<and> store_reducer (fst x) = combinedReducers \<and> click_listeners (snd x) = static_bindings \<and>
      page_ok (page (store_state (fst x))))"

definition sys_inv :: "sys \<Rightarrow> bool" where
  "sys_inv x = (core_inv x \<and> snd x = render (store_state (fst x)) (snd x))"

subsection \<open>Reference listeners and listener kinds\<close>

text \<open>
  The listener bodies as they would read with \<^verbatim>\<open>store.getState()\<close> called when
  the event fires, instead of the \<^verbatim>\<open>product\<close> and \<^verbatim>\<open>productDirty\<close> that
  \<open>render\<close> read and the closure captured. The two agree exactly when the
  document was rendered from the current state, which the invariant says.
\<close>

fun fire_fresh :: "control_event \<Rightarrow> sys \<Rightarrow> sys" where
  "fire_fresh (Blur v) x =
     (let st = getState (fst x);
          x1 = (if \<not> productDirty st then store_dispatch (changeProductDirtyAction True) x else x)
      in store_dispatch (changeProductAction v (inStock (product st))) x1)"
| "fire_fresh (Change c) x =
     (let st = getState (fst x);
          x1 = (if \<not> productDirty st then store_dispatch (changeProductDirtyAction True) x else x)
      in store_dispatch (changeProductAction (product_name (product st)) c) x1)"

text \<open>
  A listener fits a control when it is registered for the event that control
  fires and reads the property that control has: a \<^verbatim>\<open>blur\<close> listener reading
  the string \<^verbatim>\<open>event.target.value\<close> on the text field, a \<^verbatim>\<open>change\<close>
  listener reading the boolean \<^verbatim>\<open>event.target.checked\<close> on the check box.
\<close>

fun handler_fits :: "control \<Rightarrow> handler \<Rightarrow> bool" where
  "handler_fits (TextInput _) (BlurHandler _ _) = True"
| "handler_fits (Checkbox _) (ChangeHandler _ _) = True"
| "handler_fits (TextInput _) (ChangeHandler _ _) = False"
| "handler_fits (Checkbox _) (BlurHandler _ _) = False"

subsection \<open>Preservation of the invariant\<close>

lemma page_ok_cases: "page_ok p \<Longrightarrow> page_name p = DETAILS \<or> page_name p = AVAILABILITY"
  by (auto simp: page_ok_def)

lemma dispatch_render:
  "store_listeners s = [Render] \<Longrightarrow> store_reducer s = combinedReducers \<Longrightarrow>
   store_dispatch a (s, d) =
     (fst (store_dispatch a (s, d)), render (combinedReducers (Some (store_state s)) a) d)"
  by (simp add: dispatch_eq Let_def run_subscriber_def)

lemma dispatch_sys_inv:
  assumes "core_inv x" and "action_ok a"
  shows "sys_inv (store_dispatch a x)"
proof -
  obtain s d where x: "x = (s, d)" by fastforce
  with assms(1) have l: "store_listeners s = [Render]" and r: "store_reducer s = combinedReducers"
    by (simp_all add: core_inv_def)
  have "page_ok (page (combinedReducers (Some (store_state s)) a))"
    using assms x by (cases a) (auto simp: core_inv_def action_ok_def combinedReducers_Some)
  with assms(1) x l have "sys_inv (store_dispatch a (s, d))"
    by (subst dispatch_render [OF l r]) (simp add: sys_inv_def core_inv_def dispatch_fst)
  with x show ?thesis by simp
qed

lemma sys_inv_core: "sys_inv x \<Longrightarrow> core_inv x"
  by (simp add: sys_inv_def)

lemma sys_inv_reducer: "sys_inv x \<Longrightarrow> store_reducer (fst x) = combinedReducers"
  by (simp add: sys_inv_def core_inv_def)

lemma core_inv_set_control: "core_inv x \<Longrightarrow> core_inv (set_control c x)"
  by (simp add: core_inv_def set_control_def)

lemma handler_actions_ok [simp]:
  "action_ok (changeProductDirtyAction b)" "action_ok (changeProductAction n v)"
  "page_ok \<lparr>page_name = DETAILS, page_title = ''Product Details''\<rparr>"
  "page_ok \<lparr>page_name = AVAILABILITY, page_title = ''Product Availability''\<rparr>"
  by (simp_all add: action_ok_def action_creators page_ok_def)

lemma dispatch_core_inv: "core_inv x \<Longrightarrow> action_ok a \<Longrightarrow> core_inv (store_dispatch a x)"
  using dispatch_sys_inv sys_inv_core by blast

lemma fire_handler_sys_inv:
  assumes "core_inv x"
    and "(\<exists>pr b v. h = BlurHandler pr b \<and> ev = Blur v) \<or> (\<exists>pr b c. h = ChangeHandler pr b \<and> ev = Change c)"
  shows "sys_inv (fire_handler h ev x)"
  using assms
  by (auto simp: Let_def dispatch_sys_inv dispatch_core_inv)

lemma fire_click_sys_inv: "sys_inv x \<Longrightarrow> sys_inv (fire_click h x)"
  by (cases h) (auto simp: sys_inv_core dispatch_sys_inv action_ok_def action_creators)

lemma sys_inv_text_input:
  assumes "sys_inv x" and "content_control (snd x) = Some (TextInput w)"
  shows "page_name (page (store_state (fst x))) = DETAILS \<and>
         control_listeners (snd x) =
           [BlurHandler (product (store_state (fst x))) (productDirty (store_state (fst x)))]"
proof -
  let ?st = "store_state (fst x)"
  have eq: "snd x = render ?st (snd x)" using assms(1) by (simp add: sys_inv_def)
  have "content_control (snd x) = map_option snd (renderedContent ?st)"
    using synced_field [OF eq, of content_control] by simp
  with assms(2) have "page_name (page ?st) = DETAILS"
    by (auto simp: renderedContent_def split: if_splits)
  moreover have "control_listeners (snd x) = control_listeners (render ?st (snd x))"
    by (rule synced_field [OF eq])
  ultimately show ?thesis by simp
qed

lemma sys_inv_checkbox:
  assumes "sys_inv x" and "content_control (snd x) = Some (Checkbox c)"
  shows "page_name (page (store_state (fst x))) = AVAILABILITY \<and>
         control_listeners (snd x) =
           [ChangeHandler (product (store_state (fst x))) (productDirty (store_state (fst x)))]"
proof -
  let ?st = "store_state (fst x)"
  have eq: "snd x = render ?st (snd x)" using assms(1) by (simp add: sys_inv_def)
  have "content_control (snd x) = map_option snd (renderedContent ?st)"
    using synced_field [OF eq, of content_control] by simp
  with assms(2) have "page_name (page ?st) = AVAILABILITY"
    by (auto simp: renderedContent_def split: if_splits)
  moreover have "control_listeners (snd x) = control_listeners (render ?st (snd x))"
    by (rule synced_field [OF eq])
  ultimately show ?thesis by simp
qed

lemma set_control_listeners [simp]:
  "control_listeners (snd (set_control c x)) = control_listeners (snd x)"
  "fst (set_control c x) = fst x"
  by (simp_all add: set_control_def)

lemma click_sys_inv: "sys_inv x \<Longrightarrow> sys_inv (click e x)"
  unfolding click_def by (auto intro: fire_click_sys_inv)

lemma ui_step_sys_inv:
  assumes "sys_inv x"
  shows "sys_inv (ui_step x e)"
proof (cases e)
  case (Click el)
  then show ?thesis using assms by (simp add: click_sys_inv)
next
  case (EditProductName v)
  show ?thesis
  proof (cases "content_control (snd x)")
    case (Some c)
    then show ?thesis
    proof (cases c)
      case (TextInput w)
      with Some assms have "control_listeners (snd x) =
          [BlurHandler (product (store_state (fst x))) (productDirty (store_state (fst x)))]"
        using sys_inv_text_input by blast
      with EditProductName Some TextInput assms show ?thesis
        by (simp add: fire_control_def fire_handler_sys_inv core_inv_set_control sys_inv_core
            del: fire_handler.simps)
    qed (use EditProductName Some assms in simp)
  qed (use EditProductName assms in simp)
next
  case BlurProductName
  show ?thesis
  proof (cases "content_control (snd x)")
    case (Some c)
    then show ?thesis
    proof (cases c)
      case (TextInput w)
      with Some assms have "control_listeners (snd x) =
          [BlurHandler (product (store_state (fst x))) (productDirty (store_state (fst x)))]"
        using sys_inv_text_input by blast
      with BlurProductName Some TextInput assms show ?thesis
        by (simp add: fire_control_def fire_handler_sys_inv sys_inv_core del: fire_handler.simps)
    qed (use BlurProductName Some assms in simp)
  qed (use BlurProductName assms in simp)
next
  case ToggleInStock
  show ?thesis
  proof (cases "content_control (snd x)")
    case (Some c)
    then show ?thesis
    proof (cases c)
      case (Checkbox b)
      with Some assms have "control_listeners (snd x) =
          [ChangeHandler (product (store_state (fst x))) (productDirty (store_state (fst x)))]"
        using sys_inv_checkbox by blast
      with ToggleInStock Some Checkbox assms show ?thesis
        by (simp add: fire_control_def fire_handler_sys_inv core_inv_set_control sys_inv_core
            del: fire_handler.simps)
    qed (use ToggleInStock Some assms in simp)
  qed (use ToggleInStock assms in simp)
qed

lemma main_sys_inv:
  assumes "click_listeners d0 = []"
  shows "sys_inv (main d0)"
  using assms
  by (simp add: main_def sys_inv_def core_inv_def getState_def subscribe_def
      bindNavigation_def addClickListener_def static_bindings_def page_ok_def defaultState_page_def)

lemma reachable_inv: "reachable x \<Longrightarrow> sys_inv x"
  by (induction rule: reachable.induct) (simp_all add: main_sys_inv ui_step_sys_inv)

subsection \<open>What each user event does to the store\<close>

lemma sys_inv_content_control:
  assumes "sys_inv x"
  shows "content_control (snd x) =
     (if page_name (page (store_state (fst x))) = DETAILS
      then Some (TextInput (attr_value (product_name (product (store_state (fst x))))))
      else Some (Checkbox (inStock (product (store_state (fst x))))))"
proof -
  let ?st = "store_state (fst x)"
  have eq: "snd x = render ?st (snd x)" using assms by (simp add: sys_inv_def)
  have "page_name (page ?st) = DETAILS \<or> page_name (page ?st) = AVAILABILITY"
    using assms by (simp add: sys_inv_def core_inv_def page_ok_cases)
  then show ?thesis
    using synced_field [OF eq, of content_control] by (auto simp: renderedContent_def)
qed

lemma fire_handler_state:
  assumes "store_reducer (fst x) = combinedReducers"
  shows "store_state (fst (fire_handler (BlurHandler pr d) (Blur v) x)) =
     (store_state (fst x))\<lparr>product := \<lparr>product_name = v, inStock = inStock pr\<rparr>,
                           productDirty := (\<not> d \<or> productDirty (store_state (fst x)))\<rparr>"
  "store_state (fst (fire_handler (ChangeHandler pr d) (Change c) x)) =
     (store_state (fst x))\<lparr>product := \<lparr>product_name = product_name pr, inStock = c\<rparr>,
                           productDirty := (\<not> d \<or> productDirty (store_state (fst x)))\<rparr>"
  using assms by (simp_all add: Let_def action_creators combinedReducers_Some)

lemma click_filter_static:
  "map snd (filter (\<lambda>p. fst p = e) static_bindings) =
     [case e of BtnDetailsLink \<Rightarrow> OnDetailsLink | BtnAvailabilityLink \<Rightarrow> OnAvailabilityLink
              | BtnSave \<Rightarrow> OnSave]"
  by (cases e) (simp_all add: static_bindings_def)

lemma click_static:
  assumes "sys_inv x"
  shows "click e x =
     (if e = BtnSave \<and> btn_save_disabled (snd x) then x
      else fire_click (case e of BtnDetailsLink \<Rightarrow> OnDetailsLink
                               | BtnAvailabilityLink \<Rightarrow> OnAvailabilityLink
                               | BtnSave \<Rightarrow> OnSave) x)"
  using assms by (simp add: click_def sys_inv_def core_inv_def click_filter_static)

lemma sys_inv_save_disabled:
  assumes "sys_inv x"
  shows "btn_save_disabled (snd x) = (\<not> productDirty (store_state (fst x)))"
proof -
  have eq: "snd x = render (store_state (fst x)) (snd x)" using assms by (simp add: sys_inv_def)
  show ?thesis using synced_field [OF eq, of btn_save_disabled] by simp
qed



lemma sys_inv_dom_fields:
  assumes "sys_inv x"
  shows "product_title (snd x) = product_name (product (store_state (fst x))) \<and>
         btn_details_active (snd x) = (page_name (page (store_state (fst x))) = DETAILS) \<and>
         btn_availability_active (snd x) = (page_name (page (store_state (fst x))) = AVAILABILITY)"
proof -
  have eq: "snd x = render (store_state (fst x)) (snd x)" using assms by (simp add: sys_inv_def)
  show ?thesis
    using synced_field [OF eq, of product_title] synced_field [OF eq, of btn_details_active]
      synced_field [OF eq, of btn_availability_active]
    by simp
qed

lemma page_ok_details:
  "page_ok p \<Longrightarrow> page_name p = DETAILS \<Longrightarrow>
   p = \<lparr>page_name = DETAILS, page_title = ''Product Details''\<rparr>"
  by (cases p) (auto simp: page_ok_def)

lemma sys_inv_page:
  "sys_inv x \<Longrightarrow> page_ok (page (store_state (fst x)))"
  by (simp add: sys_inv_def core_inv_def)

lemma click_details_state:
  assumes inv: "sys_inv x"
  shows "store_state (fst (ui_step x (Click BtnDetailsLink))) =
     (store_state (fst x))\<lparr>page := \<lparr>page_name = DETAILS, page_title = ''Product Details''\<rparr>\<rparr>"
proof (cases "page_name (page (store_state (fst x))) = DETAILS")
  case True
  have "page (store_state (fst x)) = \<lparr>page_name = DETAILS, page_title = ''Product Details''\<rparr>"
    using page_ok_details [OF sys_inv_page [OF inv] True] .
  then have "(store_state (fst x))\<lparr>page := \<lparr>page_name = DETAILS, page_title = ''Product Details''\<rparr>\<rparr> = store_state (fst x)"
    by (metis state.update_convs(1) state.surjective)
  with True inv show ?thesis
    by (simp add: click_static getState_def)
next
  case False
  with inv show ?thesis
    by (simp add: click_static getState_def action_creators combinedReducers_Some sys_inv_reducer [OF inv])
qed

lemma fire_control_single:
  "control_listeners (snd x) = [h] \<Longrightarrow> fire_control ev x = fire_handler h ev x"
  by (simp add: fire_control_def)

lemma fire_handler_fresh:
  assumes "store_state (fst x) = st"
  shows "fire_handler (BlurHandler (product st) (productDirty st)) (Blur v) x = fire_fresh (Blur v) x"
    and "fire_handler (ChangeHandler (product st) (productDirty st)) (Change c) x = fire_fresh (Change c) x"
  using assms by (simp_all add: getState_def)

lemma edit_unfold:
  assumes inv: "sys_inv x" and det: "page_name (page (store_state (fst x))) = DETAILS"
  shows "ui_step x (EditProductName v) =
     fire_handler (BlurHandler (product (store_state (fst x))) (productDirty (store_state (fst x))))
       (Blur v) (set_control (TextInput v) x)"
proof -
  let ?st = "store_state (fst x)"
  have cc: "content_control (snd x) = Some (TextInput (attr_value (product_name (product ?st))))"
    using sys_inv_content_control [OF inv] det by simp
  then have "control_listeners (snd x) = [BlurHandler (product ?st) (productDirty ?st)]"
    using sys_inv_text_input [OF inv] by blast
  with cc show ?thesis by (simp add: fire_control_single del: fire_handler.simps)
qed

lemma edit_state:
  assumes inv: "sys_inv x" and det: "page_name (page (store_state (fst x))) = DETAILS"
  shows "store_state (fst (ui_step x (EditProductName v))) =
     (store_state (fst x))\<lparr>product := (product (store_state (fst x)))\<lparr>product_name := v\<rparr>,
                           productDirty := True\<rparr>"
  by (simp add: edit_unfold [OF inv det] fire_handler_state sys_inv_reducer [OF inv] del: fire_handler.simps ui_step.simps)

lemma page_ok_availability:
  "page_ok p \<Longrightarrow> page_name p = AVAILABILITY \<Longrightarrow>
   p = \<lparr>page_name = AVAILABILITY, page_title = ''Product Availability''\<rparr>"
  by (cases p) (auto simp: page_ok_def)

lemma click_availability_state:
  assumes inv: "sys_inv x"
  shows "store_state (fst (ui_step x (Click BtnAvailabilityLink))) =
     (store_state (fst x))\<lparr>page := \<lparr>page_name = AVAILABILITY, page_title = ''Product Availability''\<rparr>\<rparr>"
proof (cases "page_name (page (store_state (fst x))) = AVAILABILITY")
  case True
  have "page (store_state (fst x)) = \<lparr>page_name = AVAILABILITY, page_title = ''Product Availability''\<rparr>"
    using page_ok_availability [OF sys_inv_page [OF inv] True] .
  then have "(store_state (fst x))\<lparr>page := \<lparr>page_name = AVAILABILITY, page_title = ''Product Availability''\<rparr>\<rparr> = store_state (fst x)"
    by (metis state.update_convs(1) state.surjective)
  with True inv show ?thesis
    by (simp add: click_static getState_def)
next
  case False
  with inv show ?thesis
    by (simp add: click_static getState_def action_creators combinedReducers_Some sys_inv_reducer [OF inv])
qed

lemma click_save_state:
  assumes inv: "sys_inv x"
  shows "store_state (fst (ui_step x (Click BtnSave))) = (store_state (fst x))\<lparr>productDirty := False\<rparr>"
proof (cases "productDirty (store_state (fst x))")
  case True
  with inv sys_inv_save_disabled [OF inv] show ?thesis
    by (simp add: click_static action_creators combinedReducers_Some sys_inv_reducer [OF inv])
next
  case False
  then have "(store_state (fst x))\<lparr>productDirty := False\<rparr> = store_state (fst x)"
    by (metis (full_types) state.surjective state.update_convs(3))
  with False inv sys_inv_save_disabled [OF inv] show ?thesis
    by (simp add: click_static)
qed

lemma blur_unfold:
  assumes inv: "sys_inv x" and det: "page_name (page (store_state (fst x))) = DETAILS"
  shows "ui_step x BlurProductName =
     fire_handler (BlurHandler (product (store_state (fst x))) (productDirty (store_state (fst x))))
       (Blur (attr_value (product_name (product (store_state (fst x)))))) x"
proof -
  let ?st = "store_state (fst x)"
  have cc: "content_control (snd x) = Some (TextInput (attr_value (product_name (product ?st))))"
    using sys_inv_content_control [OF inv] det by simp
  then have "control_listeners (snd x) = [BlurHandler (product ?st) (productDirty ?st)]"
    using sys_inv_text_input [OF inv] by blast
  with cc show ?thesis by (simp add: fire_control_single del: fire_handler.simps)
qed

lemma toggle_unfold:
  assumes inv: "sys_inv x" and av: "page_name (page (store_state (fst x))) = AVAILABILITY"
  shows "ui_step x ToggleInStock =
     fire_handler (ChangeHandler (product (store_state (fst x))) (productDirty (store_state (fst x))))
       (Change (\<not> inStock (product (store_state (fst x)))))
       (set_control (Checkbox (\<not> inStock (product (store_state (fst x))))) x)"
proof -
  let ?st = "store_state (fst x)"
  have cc: "content_control (snd x) = Some (Checkbox (inStock (product ?st)))"
    using sys_inv_content_control [OF inv] av by simp
  then have "control_listeners (snd x) = [ChangeHandler (product ?st) (productDirty ?st)]"
    using sys_inv_checkbox [OF inv] by blast
  with cc show ?thesis by (simp add: fire_control_single del: fire_handler.simps)
qed

lemma blur_state:
  assumes inv: "sys_inv x" and det: "page_name (page (store_state (fst x))) = DETAILS"
  shows "store_state (fst (ui_step x BlurProductName)) =
     (store_state (fst x))\<lparr>product := (product (store_state (fst x)))\<lparr>product_name :=
        attr_value (product_name (product (store_state (fst x))))\<rparr>, productDirty := True\<rparr>"
  by (simp add: blur_unfold [OF inv det] fire_handler_state sys_inv_reducer [OF inv] del: fire_handler.simps ui_step.simps)

lemma toggle_state:
  assumes inv: "sys_inv x" and av: "page_name (page (store_state (fst x))) = AVAILABILITY"
  shows "store_state (fst (ui_step x ToggleInStock)) =
     (store_state (fst x))\<lparr>product := (product (store_state (fst x)))\<lparr>inStock :=
        \<not> inStock (product (store_state (fst x)))\<rparr>, productDirty := True\<rparr>"
  by (simp add: toggle_unfold [OF inv av] fire_handler_state sys_inv_reducer [OF inv] del: fire_handler.simps ui_step.simps)

text \<open>An action on the control of the other panel does nothing at all.\<close>

lemma control_event_other_page:
  assumes inv: "sys_inv x"
  shows "page_name (page (store_state (fst x))) \<noteq> DETAILS \<Longrightarrow> ui_step x (EditProductName v) = x"
    and "page_name (page (store_state (fst x))) \<noteq> DETAILS \<Longrightarrow> ui_step x BlurProductName = x"
    and "page_name (page (store_state (fst x))) \<noteq> AVAILABILITY \<Longrightarrow> ui_step x ToggleInStock = x"
  using sys_inv_content_control [OF inv] page_ok_cases [OF sys_inv_page [OF inv]] by auto
lemma main_state [simp]:
  "store_state (fst (main d0)) =
     \<lparr>page = defaultState_page, product = defaultState_product,
      productDirty = defaultState_productDirty\<rparr>"
  by (simp add: main_def subscribe_def)

lemma reachable_index: "reachable (main index_dom)"
  by (rule reachable.start) (simp add: index_dom_def)

lemma reachable_index_availability:
  "reachable (ui_step (main index_dom) (Click BtnAvailabilityLink)) \<and>
   page_name (page (store_state (fst (ui_step (main index_dom) (Click BtnAvailabilityLink))))) =
     AVAILABILITY"
proof
  show r: "reachable (ui_step (main index_dom) (Click BtnAvailabilityLink))"
    by (rule reachable.step [OF reachable_index])
  show "page_name (page (store_state (fst (ui_step (main index_dom) (Click BtnAvailabilityLink))))) =
      AVAILABILITY"
    using click_availability_state [OF reachable_inv [OF reachable_index]] by simp
qed

subsection \<open>How many actions a user event dispatches\<close>

lemma fire_handler_log:
  "\<exists>es. store_log (fst (fire_handler h ev x)) = store_log (fst x) @ es \<and> length es \<le> 2"
  by (cases h; cases ev) (auto simp: Let_def)

lemma fire_click_log:
  "\<exists>es. store_log (fst (fire_click h x)) = store_log (fst x) @ es \<and> length es \<le> 1"
  by (cases h) auto

lemma set_control_log [simp]: "store_log (fst (set_control c x)) = store_log (fst x)"
  by (simp add: set_control_def)

lemma ui_step_log:
  assumes inv: "sys_inv x"
  shows "\<exists>es. store_log (fst (ui_step x e)) = store_log (fst x) @ es \<and> length es \<le> 2"
proof (cases e)
  case (Click b)
  have "\<exists>es. store_log (fst (click b x)) = store_log (fst x) @ es \<and> length es \<le> 1"
    using fire_click_log by (simp add: click_static [OF inv])
  with Click show ?thesis by fastforce
next
  case (EditProductName v)
  show ?thesis
  proof (cases "page_name (page (store_state (fst x))) = DETAILS")
    case True
    then show ?thesis
      using EditProductName fire_handler_log [of _ _ "set_control (TextInput v) x"]
      by (simp add: edit_unfold [OF inv True] del: fire_handler.simps ui_step.simps)
  qed (use EditProductName control_event_other_page [OF inv] in simp)
next
  case BlurProductName
  show ?thesis
  proof (cases "page_name (page (store_state (fst x))) = DETAILS")
    case True
    then show ?thesis
      using BlurProductName fire_handler_log
      by (simp add: blur_unfold [OF inv True] del: fire_handler.simps ui_step.simps)
  qed (use BlurProductName control_event_other_page [OF inv] in simp)
next
  case ToggleInStock
  show ?thesis
  proof (cases "page_name (page (store_state (fst x))) = AVAILABILITY")
    case True
    then show ?thesis
      using ToggleInStock
        fire_handler_log [of _ _ "set_control (Checkbox (\<not> inStock (product (store_state (fst x))))) x"]
      by (simp add: toggle_unfold [OF inv True] del: fire_handler.simps ui_step.simps)
  qed (use ToggleInStock control_event_other_page [OF inv] in simp)
qed


end
