(* ===== verification/Loop.thy ===== *)
theory Loop
  imports Controller
begin

text \<open>
  The properties of the running page: what holds in every state that start-up
  and user actions reach (the document shows the state, one listener per
  control of the right kind, the name field shows the name), and what each
  user action does (dispatch order, equivalence of the captured listeners with
  fresh reads of the store, the bound on dispatches, the current panel's link,
  the disabled save button). Each follows from the invariant and the event
  lemmas of \<open>Controller\<close>.
\<close>

subsection \<open>Properties of the render loop\<close>

text \<open>
  C1. The document always shows the current state: in every reachable system,
  rendering the current state again would not change the document, render is
  the store's only subscriber, and the page slice names one of the two panels
  with its own title.
\<close>

theorem reachable_dom_synced:
  assumes "reachable x"
  shows "render (store_state (fst x)) (snd x) = snd x \<and> store_listeners (fst x) = [Render] \<and>
         page_ok (page (store_state (fst x)))"
  using reachable_inv [OF assms] by (simp add: sys_inv_def core_inv_def)

theorem reachable_dom_synced_witness:
  "reachable (main index_dom) \<and>
   render (store_state (fst (main index_dom))) (snd (main index_dom)) = snd (main index_dom) \<and>
   store_listeners (fst (main index_dom)) = [Render] \<and>
   page_ok (page (store_state (fst (main index_dom))))"
  using reachable_index reachable_dom_synced [OF reachable_index] by blast

text \<open>
  C3. No listener leaks across re-renders: in every reachable system the form
  control on the page has exactly one listener, and each of the two navigation
  links and the save button has exactly one click listener.
\<close>

theorem reachable_single_listeners:
  assumes "reachable x"
  shows "length (control_listeners (snd x)) = 1 \<and>
         (\<forall>e. length (filter (\<lambda>p. fst p = e) (click_listeners (snd x))) = 1)"
proof
  have inv: "sys_inv x" using reachable_inv [OF assms] .
  then have eq: "snd x = render (store_state (fst x)) (snd x)" by (simp add: sys_inv_def)
  have "page_name (page (store_state (fst x))) = DETAILS \<or>
        page_name (page (store_state (fst x))) = AVAILABILITY"
    using page_ok_cases [OF sys_inv_page [OF inv]] .
  then show "length (control_listeners (snd x)) = 1"
    using synced_field [OF eq, of control_listeners] by auto
  have "click_listeners (snd x) = static_bindings"
    using inv by (simp add: sys_inv_def core_inv_def)
  then show "\<forall>e. length (filter (\<lambda>p. fst p = e) (click_listeners (snd x))) = 1"
    by (metis click_filter_static length_map list.size(3) list.size(4) One_nat_def add_0)
qed

theorem reachable_single_listeners_witness:
  "reachable (main index_dom) \<and> length (control_listeners (snd (main index_dom))) = 1 \<and>
   (\<forall>e. length (filter (\<lambda>p. fst p = e) (click_listeners (snd (main index_dom)))) = 1)"
  using reachable_index reachable_single_listeners [OF reachable_index] by blast

text \<open>
  C4. The save button is disabled exactly when the product is not dirty. The
  request-status half of the condition never applies: the store's state has no
  request status, so the button is never disabled for a pending request.
\<close>

theorem reachable_save_disabled:
  assumes "reachable x"
  shows "btn_save_disabled (snd x) = (\<not> productDirty (store_state (fst x)))"
  using sys_inv_save_disabled [OF reachable_inv [OF assms]] .

theorem reachable_save_disabled_witness:
  "reachable (main index_dom) \<and>
   btn_save_disabled (snd (main index_dom)) = (\<not> productDirty (store_state (fst (main index_dom))))"
  using reachable_index reachable_save_disabled [OF reachable_index] by blast

text \<open>
  C10. Exactly one navigation button is marked active, the one of the current
  panel.
\<close>

theorem reachable_nav_active:
  assumes "reachable x"
  shows "btn_details_active (snd x) = (page_name (page (store_state (fst x))) = DETAILS) \<and>
         btn_availability_active (snd x) = (\<not> btn_details_active (snd x))"
proof -
  have inv: "sys_inv x" using reachable_inv [OF assms] .
  then have eq: "snd x = render (store_state (fst x)) (snd x)" by (simp add: sys_inv_def)
  have "page_name (page (store_state (fst x))) = DETAILS \<or>
        page_name (page (store_state (fst x))) = AVAILABILITY"
    using page_ok_cases [OF sys_inv_page [OF inv]] .
  then show ?thesis
    using synced_field [OF eq, of btn_details_active] synced_field [OF eq, of btn_availability_active]
    by auto
qed

theorem reachable_nav_active_witness:
  "reachable (main index_dom) \<and>
   btn_details_active (snd (main index_dom)) =
     (page_name (page (store_state (fst (main index_dom)))) = DETAILS) \<and>
   btn_availability_active (snd (main index_dom)) = (\<not> btn_details_active (snd (main index_dom)))"
  using reachable_index reachable_nav_active [OF reachable_index] by blast

text \<open>
  C11. Clicking the link of the panel already shown is a no-op, for either
  panel: no action is dispatched, nothing is re-rendered, the listeners stay as
  they are; the whole system is unchanged.
\<close>

theorem click_current_page_noop:
  assumes "reachable x"
  shows "ui_step x (Click (if page_name (page (store_state (fst x))) = DETAILS
                           then BtnDetailsLink else BtnAvailabilityLink)) = x"
proof -
  have inv: "sys_inv x" using reachable_inv [OF assms] .
  consider (d) "page_name (page (store_state (fst x))) = DETAILS"
    | (a) "page_name (page (store_state (fst x))) = AVAILABILITY"
    using page_ok_cases [OF sys_inv_page [OF inv]] by blast
  then show ?thesis
    by cases (simp_all add: click_static [OF inv] getState_def)
qed

theorem click_current_page_noop_witness:
  "reachable (ui_step (main index_dom) (Click BtnAvailabilityLink)) \<and>
   ui_step (ui_step (main index_dom) (Click BtnAvailabilityLink))
     (Click (if page_name (page (store_state (fst (ui_step (main index_dom) (Click BtnAvailabilityLink))))) = DETAILS
             then BtnDetailsLink else BtnAvailabilityLink)) =
     ui_step (main index_dom) (Click BtnAvailabilityLink)"
  using reachable_index_availability
    click_current_page_noop [OF conjunct1 [OF reachable_index_availability]]
  by blast

text \<open>
  C12. On the details panel the text field shows the product's name, for every
  name the browser reads back unchanged (\<open>plain_name\<close>: no double quote,
  which would end the attribute, no \<^verbatim>\<open>&\<close>, which would start a character
  reference, no line break, which the text field drops, and no NUL).
\<close>

theorem reachable_name_field:
  assumes "reachable x" and "page_name (page (store_state (fst x))) = DETAILS"
    and "plain_name (product_name (product (store_state (fst x))))"
  shows "content_control (snd x) = Some (TextInput (product_name (product (store_state (fst x)))))"
  using assms sys_inv_content_control [OF reachable_inv [OF assms(1)]] by simp

theorem reachable_name_field_witness:
  "reachable (main index_dom) \<and> page_name (page (store_state (fst (main index_dom)))) = DETAILS \<and>
   plain_name (product_name (product (store_state (fst (main index_dom))))) \<and>
   content_control (snd (main index_dom)) =
     Some (TextInput (product_name (product (store_state (fst (main index_dom))))))"
proof -
  have d: "page_name (page (store_state (fst (main index_dom)))) = DETAILS"
    by (simp add: defaultState_page_def)
  have q: "plain_name (product_name (product (store_state (fst (main index_dom)))))"
    by (simp add: defaultState_product_def plain_name_def dq_def)
  show ?thesis using reachable_index d q reachable_name_field [OF reachable_index d q] by blast
qed

text \<open>
  C17. The blur listener dispatches in a fixed order: first the dirty flag,
  and only when the flag it captured was false, then the product with the typed
  name and the captured in-stock flag. The logger sees exactly these actions
  for one edit.
\<close>

theorem edit_dispatch_order:
  assumes "reachable x" and "page_name (page (store_state (fst x))) = DETAILS"
  shows "map fst (store_log (fst (ui_step x (EditProductName v)))) =
     map fst (store_log (fst x)) @
     (if productDirty (store_state (fst x)) then [] else [ChangeProductDirty True]) @
     [ChangeProduct v (inStock (product (store_state (fst x))))]"
  using edit_unfold [OF reachable_inv [OF assms(1)] assms(2)]
  by (simp add: Let_def action_creators del: ui_step.simps)

theorem edit_dispatch_order_witness:
  "reachable (main index_dom) \<and> page_name (page (store_state (fst (main index_dom)))) = DETAILS \<and>
   map fst (store_log (fst (ui_step (main index_dom) (EditProductName ''Widget'')))) =
     map fst (store_log (fst (main index_dom))) @
     (if productDirty (store_state (fst (main index_dom))) then [] else [ChangeProductDirty True]) @
     [ChangeProduct ''Widget'' (inStock (product (store_state (fst (main index_dom)))))]"
proof -
  have d: "page_name (page (store_state (fst (main index_dom)))) = DETAILS"
    by (simp add: defaultState_page_def)
  show ?thesis using reachable_index d edit_dispatch_order [OF reachable_index d] by blast
qed

text \<open>
  C20. Equivalence of the captured listeners with listeners reading the store
  when the event fires. In every reachable state, typing a name and leaving the
  field, leaving the field, and toggling the check box each do exactly what
  \<open>fire_fresh\<close> does with \<^verbatim>\<open>store.getState()\<close> read at event time, on the
  panel that shows the control, and nothing on the other panel. The
  \<^verbatim>\<open>product\<close> and \<^verbatim>\<open>productDirty\<close> that render captured are never stale.
\<close>

theorem captured_listeners_fresh:
  assumes "reachable x"
  shows "ui_step x (EditProductName v) =
           (if page_name (page (store_state (fst x))) = DETAILS
            then fire_fresh (Blur v) (set_control (TextInput v) x) else x) \<and>
         ui_step x BlurProductName =
           (if page_name (page (store_state (fst x))) = DETAILS
            then fire_fresh (Blur (attr_value (product_name (product (store_state (fst x)))))) x
            else x) \<and>
         ui_step x ToggleInStock =
           (if page_name (page (store_state (fst x))) = AVAILABILITY
            then fire_fresh (Change (\<not> inStock (product (store_state (fst x)))))
                   (set_control (Checkbox (\<not> inStock (product (store_state (fst x))))) x)
            else x)"
proof -
  have inv: "sys_inv x" using reachable_inv [OF assms] .
  have st: "store_state (fst (set_control c x)) = store_state (fst x)" for c by simp
  have e: "page_name (page (store_state (fst x))) = DETAILS \<Longrightarrow>
      ui_step x (EditProductName v) = fire_fresh (Blur v) (set_control (TextInput v) x)"
    using edit_unfold [OF inv] fire_handler_fresh(1) [OF st] by (simp del: fire_handler.simps fire_fresh.simps)
  have b: "page_name (page (store_state (fst x))) = DETAILS \<Longrightarrow>
      ui_step x BlurProductName = fire_fresh (Blur (attr_value (product_name (product (store_state (fst x)))))) x"
    using blur_unfold [OF inv] fire_handler_fresh(1) [OF refl] by (simp del: fire_handler.simps fire_fresh.simps)
  have t: "page_name (page (store_state (fst x))) = AVAILABILITY \<Longrightarrow>
      ui_step x ToggleInStock = fire_fresh (Change (\<not> inStock (product (store_state (fst x)))))
        (set_control (Checkbox (\<not> inStock (product (store_state (fst x))))) x)"
    using toggle_unfold [OF inv] fire_handler_fresh(2) [OF st] by (simp del: fire_handler.simps fire_fresh.simps)
  show ?thesis
    using e b t control_event_other_page [OF inv] by (simp del: fire_fresh.simps ui_step.simps)
qed

theorem captured_listeners_fresh_witness:
  "reachable (main index_dom) \<and>
   ui_step (main index_dom) (EditProductName ''Widget'') =
     (if page_name (page (store_state (fst (main index_dom)))) = DETAILS
      then fire_fresh (Blur ''Widget'') (set_control (TextInput ''Widget'') (main index_dom))
      else main index_dom) \<and>
   ui_step (main index_dom) BlurProductName =
     (if page_name (page (store_state (fst (main index_dom)))) = DETAILS
      then fire_fresh (Blur (attr_value (product_name (product (store_state (fst (main index_dom)))))))
             (main index_dom)
      else main index_dom) \<and>
   ui_step (main index_dom) ToggleInStock =
     (if page_name (page (store_state (fst (main index_dom)))) = AVAILABILITY
      then fire_fresh (Change (\<not> inStock (product (store_state (fst (main index_dom))))))
             (set_control (Checkbox (\<not> inStock (product (store_state (fst (main index_dom))))))
               (main index_dom))
      else main index_dom)"
  using reachable_index captured_listeners_fresh [OF reachable_index] by blast

text \<open>
  C21. The listeners have the type of their control. In every reachable state
  the content holds a form control, and every listener on it is registered
  for that control's event and reads that control's property: blur listeners
  reading a string on the text field, change listeners reading a boolean on
  the check box. The mismatched branches of \<open>fire_handler\<close> never run.
\<close>

theorem reachable_listener_types:
  assumes "reachable x"
  shows "\<exists>c. content_control (snd x) = Some c \<and> list_all (handler_fits c) (control_listeners (snd x))"
proof -
  have inv: "sys_inv x" using reachable_inv [OF assms] .
  let ?st = "store_state (fst x)"
  consider (d) "page_name (page ?st) = DETAILS" | (a) "page_name (page ?st) = AVAILABILITY"
    using page_ok_cases [OF sys_inv_page [OF inv]] by blast
  then show ?thesis
  proof cases
    case d
    then have "content_control (snd x) = Some (TextInput (attr_value (product_name (product ?st))))"
      using sys_inv_content_control [OF inv] by simp
    with sys_inv_text_input [OF inv this] show ?thesis by simp
  next
    case a
    then have "content_control (snd x) = Some (Checkbox (inStock (product ?st)))"
      using sys_inv_content_control [OF inv] by simp
    with sys_inv_checkbox [OF inv this] show ?thesis by simp
  qed
qed

theorem reachable_listener_types_witness:
  "reachable (main index_dom) \<and>
   (\<exists>c. content_control (snd (main index_dom)) = Some c \<and>
        list_all (handler_fits c) (control_listeners (snd (main index_dom))))"
  using reachable_index reachable_listener_types [OF reachable_index] by blast

text \<open>
  C24. A user action dispatches at most two actions, so \<open>render\<close> runs at
  most twice for it: over any run of user actions from a reachable state, the
  logger appends to what it had at most twice as many entries as there were
  user actions.
\<close>

theorem ui_run_dispatch_bound:
  assumes "reachable x"
  shows "\<exists>es. store_log (fst (ui_run x evs)) = store_log (fst x) @ es \<and> length es \<le> 2 * length evs"
  using assms
proof (induction evs arbitrary: x)
  case Nil
  then show ?case by simp
next
  case (Cons e evs)
  obtain es1 where 1: "store_log (fst (ui_step x e)) = store_log (fst x) @ es1" "length es1 \<le> 2"
    using ui_step_log [OF reachable_inv [OF Cons.prems]] by blast
  obtain es2 where 2: "store_log (fst (ui_run (ui_step x e) evs)) = store_log (fst (ui_step x e)) @ es2"
      "length es2 \<le> 2 * length evs"
    using Cons.IH [OF reachable.step [OF Cons.prems]] by blast
  show ?case using 1 2 by (intro exI [of _ "es1 @ es2"]) simp
qed

theorem ui_run_dispatch_bound_witness:
  "reachable (main index_dom) \<and>
   (\<exists>es. store_log (fst (ui_run (main index_dom) [EditProductName ''Widget'', Click BtnSave])) =
          store_log (fst (main index_dom)) @ es \<and>
        length es \<le> 2 * length [EditProductName ''Widget'', Click BtnSave])"
  using reachable_index ui_run_dispatch_bound [OF reachable_index] by blast

text \<open>
  C26. The error path of \<open>render\<close> is never taken: in no reachable state
  does the content container show the text \<^verbatim>\<open>undefined\<close> that an unknown
  page name produces (C9). Every page name the listeners dispatch is one of the
  two panels'.
\<close>

theorem reachable_no_undefined_content:
  assumes "reachable x"
  shows "content (snd x) \<noteq> ''undefined'' \<and> content_control (snd x) \<noteq> None"
proof -
  have inv: "sys_inv x" using reachable_inv [OF assms] .
  let ?st = "store_state (fst x)"
  have eq: "snd x = render ?st (snd x)" using inv by (simp add: sys_inv_def)
  have c: "content (snd x) = js_string_of (map_option fst (renderedContent ?st))"
    using synced_field [OF eq, of content] by simp
  have "page_name (page ?st) = DETAILS \<or> page_name (page ?st) = AVAILABILITY"
    using page_ok_cases [OF sys_inv_page [OF inv]] .
  with c sys_inv_content_control [OF inv] show ?thesis
    by (auto simp: renderedContent_def DetailsComponent_def AvailabilityComponent_def)
qed

theorem reachable_no_undefined_content_witness:
  "reachable (ui_step (main index_dom) (Click BtnAvailabilityLink)) \<and>
   content (snd (ui_step (main index_dom) (Click BtnAvailabilityLink))) \<noteq> ''undefined'' \<and>
   content_control (snd (ui_step (main index_dom) (Click BtnAvailabilityLink))) \<noteq> None"
  using reachable_index_availability
    reachable_no_undefined_content [OF conjunct1 [OF reachable_index_availability]] by blast

text \<open>
  C27. A click on the save button while the product has no unsaved edits does
  nothing at all: the button is disabled, so its listener does not run, nothing
  is dispatched and nothing is logged. The spec's unconditional "save
  dispatches the dirty flag false" does not hold for this case.
\<close>

theorem save_clean_noop:
  assumes "reachable x" and "\<not> productDirty (store_state (fst x))"
  shows "ui_step x (Click BtnSave) = x"
  using assms sys_inv_save_disabled [OF reachable_inv [OF assms(1)]] by (simp add: click_def)

theorem save_clean_noop_witness:
  "reachable (main index_dom) \<and> \<not> productDirty (store_state (fst (main index_dom))) \<and>
   ui_step (main index_dom) (Click BtnSave) = main index_dom"
proof -
  have c: "\<not> productDirty (store_state (fst (main index_dom)))"
    by (simp add: defaultState_productDirty_def)
  show ?thesis using reachable_index c save_clean_noop [OF reachable_index c] by blast
qed


end
