(* ===== verification/Http.thy ===== *)
theory Http
  imports Prelude "HOL-Library.While_Combinator" "HOL-Library.Multiset"
begin

text \<open>
  The delay stub of \<^verbatim>\<open>src/src/http/index.js\<close>: \<^verbatim>\<open>httpPut(url, callback)\<close>
  schedules \<^verbatim>\<open>callback()\<close> with \<^verbatim>\<open>setTimeout\<close> after
  \<^verbatim>\<open>ASYNC_AWAIT_TIME\<close> milliseconds and ignores the URL. The browser's timer
  queue, which the source only calls, is modelled from its contract: a clock in
  milliseconds, the pending timers with their deadlines in scheduling order, and
  the callbacks run so far. Advancing the clock runs every timer whose deadline
  has passed, earliest deadline first and in scheduling order among equal
  deadlines; each runs once and leaves the queue. The event loop with no other
  work, \<open>drain\<close>, sleeps until the next deadline and runs what is due, until
  nothing is pending; it is a \<open>while_option\<close>, proved to end for every
  queue, to run the pending callbacks in deadline order, and to run the
  callback of \<open>httpPut\<close>. No other part of the program calls \<open>httpPut\<close>.
\<close>

record 'cb timers =
  clock :: nat
  pending :: "(nat \<times> 'cb) list"
  fired :: "'cb list"

definition ASYNC_AWAIT_TIME :: nat where
  "ASYNC_AWAIT_TIME = 1000"

definition setTimeout :: "'cb \<Rightarrow> nat \<Rightarrow> 'cb timers \<Rightarrow> 'cb timers" where
  "setTimeout cb delay t = t\<lparr>pending := pending t @ [(clock t + delay, cb)]\<rparr>"

definition httpPut :: "string \<Rightarrow> 'cb \<Rightarrow> 'cb timers \<Rightarrow> 'cb timers" where
  "httpPut url callback t = setTimeout callback ASYNC_AWAIT_TIME t"

definition advance :: "nat \<Rightarrow> 'cb timers \<Rightarrow> 'cb timers" where
  "advance n t =
     (let now = clock t + n;
          due = filter (\<lambda>p. fst p \<le> now) (pending t)
      in t\<lparr>clock := now,
           pending := filter (\<lambda>p. \<not> fst p \<le> now) (pending t),
           fired := fired t @ map snd (sort_key fst due)\<rparr>)"

definition no_timers :: "'cb timers" where
  "no_timers = \<lparr>clock = 0, pending = [], fired = []\<rparr>"

text \<open>
  The event loop with nothing else to do: while a timer is pending, sleep until
  the earliest deadline and run what is due then. \<open>while_option\<close> returns
  \<open>None\<close> if the loop never ends; the theorems below show it always ends.
\<close>

definition next_deadline :: "'cb timers \<Rightarrow> nat" where
  "next_deadline t = Min (set (map fst (pending t)))"

definition run_next :: "'cb timers \<Rightarrow> 'cb timers" where
  "run_next t = advance (next_deadline t - clock t) t"

definition drain :: "'cb timers \<Rightarrow> 'cb timers option" where
  "drain t = while_option (\<lambda>t. pending t \<noteq> []) run_next t"

text \<open>The moment the last pending timer is due, or now if none is.\<close>

definition last_deadline :: "'cb timers \<Rightarrow> nat" where
  "last_deadline t = Max (set (clock t # map fst (pending t)))"

subsection \<open>Properties of the delay stub\<close>

text \<open>
  C18. With no other timer pending, the callback given to \<open>httpPut\<close> runs
  exactly once, and not before the delay: advancing the clock by \<open>n\<close>
  milliseconds has run it once if \<open>n\<close> reaches 1000 and not at all before, and
  a timer that ran is no longer pending.
\<close>

theorem httpPut_fires_once:
  assumes "pending t = []"
  shows "fired (advance n (httpPut url cb t)) =
           fired t @ (if ASYNC_AWAIT_TIME \<le> n then [cb] else []) \<and>
         pending (advance n (httpPut url cb t)) =
           (if ASYNC_AWAIT_TIME \<le> n then [] else [(clock t + ASYNC_AWAIT_TIME, cb)])"
  using assms by (simp add: advance_def httpPut_def setTimeout_def Let_def)

theorem httpPut_fires_once_witness:
  "pending (no_timers :: nat timers) = [] \<and>
   fired (advance 1000 (httpPut ''/product'' (7::nat) no_timers)) =
     fired (no_timers :: nat timers) @ (if ASYNC_AWAIT_TIME \<le> 1000 then [7] else []) \<and>
   pending (advance 1000 (httpPut ''/product'' (7::nat) no_timers)) =
     (if ASYNC_AWAIT_TIME \<le> 1000 then [] else [(clock (no_timers :: nat timers) + ASYNC_AWAIT_TIME, 7)])"
proof -
  have h: "pending (no_timers :: nat timers) = []" by (simp add: no_timers_def)
  show ?thesis by (rule conjI [OF h httpPut_fires_once [OF h]])
qed

text \<open>
  The timer model does not depend on how time is sliced: advancing the clock
  by \<open>n\<close> and then by \<open>m\<close> milliseconds runs the same callbacks, in the same
  order, and leaves the same timers pending as advancing it by \<open>n + m\<close> at once.
\<close>

lemma advance_add:
  "advance m (advance n t) = advance (n + m) t"
proof -
  let ?P = "pending t" and ?a = "clock t + n" and ?b = "clock t + (n + m)"
  have pend: "filter (\<lambda>x. \<not> fst x \<le> ?a \<and> \<not> fst x \<le> ?b) ?P = filter (\<lambda>p. \<not> fst p \<le> ?b) ?P"
    by (rule filter_cong) auto
  have lo: "filter (\<lambda>x. fst x \<le> ?a \<and> fst x \<le> ?b) ?P = filter (\<lambda>p. fst p \<le> ?a) ?P"
    by (rule filter_cong) auto
  have due: "sort_key fst (filter (\<lambda>p. fst p \<le> ?b) ?P) =
      sort_key fst (filter (\<lambda>p. fst p \<le> ?a) ?P) @
      sort_key fst (filter (\<lambda>x. \<not> fst x \<le> ?a \<and> fst x \<le> ?b) ?P)"
    using sort_key_split [of fst "filter (\<lambda>p. fst p \<le> ?b) ?P" ?a] lo
    by (simp add: filter_filter conj_commute)
  show ?thesis
    by (simp add: advance_def Let_def filter_filter add.assoc pend due)
qed
subsection \<open>The event loop\<close>

text \<open>
  Each turn of the loop runs at least the timer with the earliest deadline, so
  the number of pending timers goes down.
\<close>

lemma run_next_pending_less:
  assumes "pending t \<noteq> []"
  shows "length (pending (run_next t)) < length (pending t)"
proof -
  have "next_deadline t \<in> fst ` set (pending t)"
    using assms by (simp add: next_deadline_def Min_in)
  then obtain p where p: "p \<in> set (pending t)" "fst p = next_deadline t" by force
  have "fst p \<le> clock t + (next_deadline t - clock t)" using p(2) by simp
  then show ?thesis
    using p(1) by (simp add: run_next_def advance_def Let_def length_filter_less)
qed

text \<open>
  A turn of the loop keeps the order the callbacks are due in: what has run,
  followed by the pending callbacks sorted by deadline (stably), is the same
  before and after.
\<close>

lemma advance_sorted:
  "fired (advance n t) @ map snd (sort_key fst (pending (advance n t))) =
   fired t @ map snd (sort_key fst (pending t))"
  using sort_key_split [of fst "pending t" "clock t + n"]
  by (simp add: advance_def Let_def)

lemma advance_clock [simp]: "clock (advance n t) = clock t + n"
  by (simp add: advance_def Let_def)

lemma advance_pending_set:
  "set (pending (advance n t)) = {p \<in> set (pending t). \<not> fst p \<le> clock t + n}"
  by (simp add: advance_def Let_def)

text \<open>A deadline that has not been reached is still pending.\<close>

lemma advance_deadline:
  assumes "D \<le> clock t \<or> D \<in> fst ` set (pending t)"
  shows "D \<le> clock (advance n t) \<or> D \<in> fst ` set (pending (advance n t))"
proof (cases "D \<le> clock t + n")
  case True
  then show ?thesis by simp
next
  case False
  with assms obtain c where "(D, c) \<in> set (pending t)" by auto
  with False have "(D, c) \<in> set (pending (advance n t))" by (simp add: advance_pending_set)
  then show ?thesis by (metis fst_conv image_eqI)
qed

lemma drain_Some: "\<exists>t'. drain t = Some t'"
  unfolding drain_def
  by (rule measure_while_option_Some [where P = "\<lambda>_. True" and f = "\<lambda>t. length (pending t)"])
     (simp_all add: run_next_pending_less)

lemma drain_stop: "drain t = Some t' \<Longrightarrow> pending t' = []"
  unfolding drain_def by (drule while_option_stop) simp

lemma drain_rule_next:
  assumes "\<And>s. P s \<Longrightarrow> pending s \<noteq> [] \<Longrightarrow> P (run_next s)" and "P t" and d: "drain t = Some t'"
  shows "P t'"
  using assms(1) d [unfolded drain_def] assms(2) by (rule while_option_rule)

lemma drain_rule:
  assumes step: "\<And>s n. P s \<Longrightarrow> P (advance n s)" and "P t" and d: "drain t = Some t'"
  shows "P t'"
  using _ assms(2) d by (rule drain_rule_next) (simp add: run_next_def step)

text \<open>
  Each turn of the loop keeps the moment the last timer is due: it moves the
  clock at most up to it.
\<close>

lemma Max_insert_above:
  fixes D :: "nat set"
  assumes "finite D"
  shows "Max (insert c {d \<in> D. c < d}) = Max (insert c D)"
proof (cases "\<exists>d\<in>D. c < d")
  case True
  then obtain d where d: "d \<in> D" "c < d" by blast
  then have cm: "c < Max D" using assms by (meson Max_ge less_le_trans)
  have ne: "D \<noteq> {}" using d by blast
  then have "Max D \<in> {d \<in> D. c < d}" using assms cm by simp
  then have "Max {d \<in> D. c < d} = Max D"
    using assms by (intro antisym Max_mono Max_ge) auto
  with cm ne assms \<open>Max D \<in> {d \<in> D. c < d}\<close> show ?thesis
    by (metis (no_types, lifting) Max_insert empty_iff finite_subset mem_Collect_eq subsetI
        max.strict_order_iff)
next
  case False
  then have e: "{d \<in> D. c < d} = {}" by auto
  have "Max (insert c D) = c"
    using False assms by (intro Max_eqI) auto
  then show ?thesis unfolding e by simp
qed

lemma run_next_last_deadline:
  assumes "pending s \<noteq> []"
  shows "last_deadline (run_next s) = last_deadline s"
proof -
  let ?D = "fst ` set (pending s)" and ?c = "clock s + (next_deadline s - clock s)"
  have nd: "next_deadline s \<in> ?D"
    using assms by (simp add: next_deadline_def Min_in)
  have "set (map fst (pending (run_next s))) = {d \<in> ?D. ?c < d}"
    by (auto simp: run_next_def advance_pending_set)
  then have "last_deadline (run_next s) = Max (insert ?c ?D)"
    by (simp add: last_deadline_def run_next_def Max_insert_above)
  also have "\<dots> = Max (insert (clock s) ?D)"
  proof -
    have ne: "?D \<noteq> {}" using nd by (metis empty_iff)
    have "next_deadline s \<le> Max ?D" using nd by simp
    with ne show ?thesis by (simp add: max_def) arith
  qed
  finally show ?thesis by (simp add: last_deadline_def)
qed

text \<open>
  For every timer queue the event loop ends, with nothing pending, having run
  exactly the pending callbacks, each once, in order of deadline and in
  scheduling order among equal deadlines.
\<close>

lemma drain_result:
  "\<exists>t'. drain t = Some t' \<and> pending t' = [] \<and>
        fired t' = fired t @ map snd (sort_key fst (pending t))"
proof -
  obtain t' where d: "drain t = Some t'" using drain_Some by blast
  have "fired t' @ map snd (sort_key fst (pending t')) = fired t @ map snd (sort_key fst (pending t))"
    by (rule drain_rule [OF _ _ d]) (simp_all only: advance_sorted)
  with drain_stop [OF d] d show ?thesis by simp
qed

text \<open>
  Running the loop deadline by deadline ends exactly where one jump of the
  clock to the last deadline ends.
\<close>

lemma drain_advance: "drain t = Some (advance (last_deadline t - clock t) t)"
proof -
  obtain t' where d: "drain t = Some t'" and p: "pending t' = []"
    and f: "fired t' = fired t @ map snd (sort_key fst (pending t))"
    using drain_result by blast
  have "last_deadline t' = last_deadline t"
    by (rule drain_rule_next [OF _ _ d]) (simp_all add: run_next_last_deadline)
  then have c: "clock t' = last_deadline t" using p by (simp add: last_deadline_def)
  have all: "\<forall>p\<in>set (pending t). fst p \<le> last_deadline t" and ck: "clock t \<le> last_deadline t"
    by (simp_all add: last_deadline_def)
  have "t' = advance (last_deadline t - clock t) t"
    using p f c all ck by (intro timers.equality) (simp_all add: advance_def Let_def)
  with d show ?thesis by simp
qed

text \<open>Calls of \<open>httpPut\<close> made one after the other, at the same moment.\<close>

lemma httpPut_fold:
  "fold (\<lambda>(url, cb). httpPut url cb) calls t =
     t\<lparr>pending := pending t @ map (\<lambda>(url, cb). (clock t + ASYNC_AWAIT_TIME, cb)) calls\<rparr>"
  by (induction calls arbitrary: t) (auto simp: httpPut_def setTimeout_def)

subsection \<open>Properties of the event loop\<close>

text \<open>
  C22. Termination with several requests in flight: after any sequence of
  \<open>httpPut\<close> calls, on top of whatever timers were pending, the event loop
  ends with nothing pending, having run every pending callback once, in order
  of deadline; the calls' callbacks, all due 1000 ms later, run in call order.
\<close>

theorem httpPut_calls_drain:
  "\<exists>t'. drain (fold (\<lambda>(url, cb). httpPut url cb) calls t) = Some t' \<and> pending t' = [] \<and>
        fired t' = fired t @ map snd (sort_key fst
          (pending t @ map (\<lambda>(url, cb). (clock t + ASYNC_AWAIT_TIME, cb)) calls))"
  using drain_result [of "fold (\<lambda>(url, cb). httpPut url cb) calls t"] by (simp add: httpPut_fold)

text \<open>
  C23. Liveness of \<open>httpPut\<close>: whatever else is pending, once the event loop
  has run, the callback given to \<open>httpPut\<close> has run once more than it was
  already run or pending (that is, it ran), and the clock has reached the
  moment 1000 ms after the call.
\<close>

theorem httpPut_eventually_fires:
  "\<exists>t'. drain (httpPut url cb t) = Some t' \<and> pending t' = [] \<and>
        count (mset (fired t')) cb =
          count (mset (fired t)) cb + count (mset (map snd (pending t))) cb + 1 \<and>
        clock t + ASYNC_AWAIT_TIME \<le> clock t'"
proof -
  let ?u = "httpPut url cb t" and ?D = "clock t + ASYNC_AWAIT_TIME"
  obtain t' where d: "drain ?u = Some t'" and p: "pending t' = []"
    and "fired t' = fired ?u @ map snd (sort_key fst (pending ?u))"
    using drain_result by blast
  then have f: "mset (fired t') = mset (fired t) + mset (map snd (pending t)) + {#cb#}"
    by (simp add: httpPut_def setTimeout_def mset_map)
  have "?D \<le> clock t' \<or> ?D \<in> fst ` set (pending t')"
  proof (rule drain_rule [OF _ _ d])
    show "?D \<le> clock ?u \<or> ?D \<in> fst ` set (pending ?u)"
      by (simp add: httpPut_def setTimeout_def)
  qed (rule advance_deadline)
  with p f d show ?thesis by simp
qed

text \<open>
  C25. The event loop after a batch of \<open>httpPut\<close> calls is one wait of
  \<open>ASYNC_AWAIT_TIME\<close>. When the calls are made together and nothing else
  pending is due later than their deadline, running the loop deadline by
  deadline is the same as letting 1000 ms pass at once: the same callbacks run,
  in the same order, and the clock ends 1000 ms after the calls.
\<close>

theorem httpPut_calls_drain_advance:
  assumes "calls \<noteq> []" and "\<forall>p\<in>set (pending t). fst p \<le> clock t + ASYNC_AWAIT_TIME"
  shows "drain (fold (\<lambda>(url, cb). httpPut url cb) calls t) =
           Some (advance ASYNC_AWAIT_TIME (fold (\<lambda>(url, cb). httpPut url cb) calls t))"
proof -
  let ?u = "fold (\<lambda>(url, cb). httpPut url cb) calls t"
  have "last_deadline ?u = clock t + ASYNC_AWAIT_TIME"
    using assms unfolding last_deadline_def httpPut_fold
    by (intro Max_eqI) (auto simp: neq_Nil_conv)
  moreover have "clock ?u = clock t" by (simp add: httpPut_fold)
  ultimately show ?thesis by (simp add: drain_advance)
qed

theorem httpPut_calls_drain_advance_witness:
  "[(''/product'', 7::nat)] \<noteq> [] \<and> pending (no_timers :: nat timers) = [] \<and>
   drain (fold (\<lambda>(url, cb). httpPut url cb) [(''/product'', 7::nat)] no_timers) =
     Some (advance ASYNC_AWAIT_TIME (fold (\<lambda>(url, cb). httpPut url cb) [(''/product'', 7::nat)] no_timers))"
proof -
  have h: "[(''/product'', 7::nat)] \<noteq> []"
    "\<forall>p\<in>set (pending (no_timers :: nat timers)). fst p \<le> clock (no_timers :: nat timers) + ASYNC_AWAIT_TIME"
    by (simp_all add: no_timers_def)
  have "pending (no_timers :: nat timers) = []" by (simp add: no_timers_def)
  then show ?thesis using h httpPut_calls_drain_advance [OF h] by blast
qed

end
