(* ===== verification/Spec2Isabelle.thy ===== *)
theory Spec2Isabelle
  imports Loop Http
begin

text \<open>
  \<^bold>\<open>A verification development of the product manager page\<close>
  (\<^verbatim>\<open>src/src/product-manager.js\<close>, \<^verbatim>\<open>src/src/http/index.js\<close>).

  \<^bold>\<open>The program.\<close> A browser page edits one product (name, in-stock flag) in
  two tabbed panels. A Redux store holds the state tree; three reducers update its
  slices (page, product, dirty flag). The redux-logger middleware wraps the
  store's dispatch. \<^verbatim>\<open>render\<close> is the store's only
  subscriber: after every dispatch it rewrites the title, the active tab, the
  save button's \<^verbatim>\<open>disabled\<close> flag and the content container, and attaches
  one listener to the form control it has just inserted. That listener, and the
  three click listeners bound once at start-up, dispatch actions back into the
  store. \<^verbatim>\<open>httpPut\<close> is a timer stub that nothing calls.

  \<^bold>\<open>Theories.\<close>
  \<^item> \<open>Prelude\<close>: JavaScript idioms the code relies on (default parameters as
    \<open>js_default\<close>, \<open>undefined\<close> written into \<^verbatim>\<open>innerHTML\<close> as
    \<open>js_string_of\<close>, template line breaks), the collections \<open>store_simps\<close>
    and \<open>view_simps\<close>, fold lemmas for listener lists, and the splitting of
    a stable sort at a key.
  \<^item> \<open>Store\<close>: lines 4--63 and 167--187. Records \<open>page\<close>, \<open>product\<close> and
    \<open>state\<close> (the tree \<^verbatim>\<open>combineReducers\<close> builds, which has no
    \<^verbatim>\<open>requestStatus\<close>). The datatype \<open>action\<close> covers the three action kinds
    plus \<open>Unknown\<close>. Then the reducers \<open>pageReducer\<close>, \<open>productReducer\<close>,
    \<open>productDirtyReducer\<close> and \<open>combinedReducers\<close>, and the action creators.
  \<^item> \<open>Redux\<close>: lines 65--68, the constant \<open>store\<close>. Redux and redux-logger
    are modelled from their contract, with every operation that changes the
    store:
    \<^item> \<open>createStore\<close> and \<open>getState\<close>;
    \<^item> \<open>subscribe\<close> and the \<open>unsubscribe\<close> it returns;
    \<^item> Redux's own dispatch \<open>core_dispatch\<close> and \<open>replaceReducer\<close>;
    \<^item> the middleware \<open>logger\<close>.
    \<open>dispatch\<close> composes the logger and Redux's dispatch, as
    \<^verbatim>\<open>applyMiddleware(logger())\<close> does. It is generic in the subscriber
    type and in the world the subscribers act on. \<open>subs_ok\<close> says that the
    subscription records are consistent; every store operation keeps it.
  \<^item> \<open>Views\<close>: lines 70--85, \<open>DetailsComponent\<close> and
    \<open>AvailabilityComponent\<close> character for character. \<open>attr_value\<close> is how
    the browser reads the unescaped \<^verbatim>\<open>value="${name}"\<close> back: cut at the
    first double quote, line breaks dropped. \<open>plain_name\<close> marks the names
    for which that reading is exact.
  \<^item> \<open>Render\<close>: lines 87--165. The record \<open>dom\<close> has one field per DOM
    property the code writes. \<open>render\<close> is split into its steps
    (\<open>setProductTitle\<close>, \<open>setActiveNav\<close>, \<open>setSaveDisabled\<close>,
    \<open>renderedContent\<close>, \<open>set_innerHTML\<close>, \<open>attachControlListener\<close>).
    The listener closures (datatype \<open>handler\<close>) capture the product and
    dirty flag render read.
  \<^item> \<open>Controller\<close>: lines 189--221 and the listener bodies of lines 131--164.
    \<open>fire_handler\<close> and \<open>fire_click\<close> are the listener bodies, and
    \<open>main\<close> is module start-up. A user action (\<open>ui_step\<close>) runs its
    target's listeners over a snapshot of the listener list, as the DOM does. A
    disabled button gets no click. The inductive predicate \<open>reachable\<close> gives
    the states start-up and user actions lead to. \<open>fire_fresh\<close> is a
    reference listener that reads the store when the event fires.
  \<^item> \<open>Loop\<close>: the properties of the running page, stated over
    \<open>reachable\<close> and proved from the invariant and the event lemmas of
    \<open>Controller\<close>.
  \<^item> \<open>Http\<close>: \<open>httpPut\<close> over a model of the browser timer queue (clock,
    pending timers with deadlines, callbacks run). The event loop
    \<open>drain\<close> (a \<open>while_option\<close>) runs due timers until none is pending.
  \<^item> This theory: the abstract specification (\<open>abs_state\<close>, \<open>abs_step\<close>,
    the abstraction \<open>abs_sys\<close>), the refinement theorem, and the spec's four
    end-to-end scenarios.

  \<^bold>\<open>What is proved.\<close> The invariant \<open>sys_inv\<close> holds in every reachable
  state, by rule induction over \<open>reachable\<close>. It says:
  \<^item> render is the only subscriber, and the store keeps \<open>combinedReducers\<close>;
  \<^item> each start-up element has its one click listener;
  \<^item> the page is one of the two panels, with its title;
  \<^item> the document is a fixpoint of render for the current state.

  \<open>dispatch_sys_inv\<close> is the key step: one dispatch restores the fixpoint
  whatever the document held before. From the invariant follow:
  \<^item> C1, C3, C4, C10: the DOM matches the state; there is exactly one
    listener per control; the save button is disabled iff the product is not
    dirty; one tab is active.
  \<^item> C12: the name field shows the name, for plain names.
  \<^item> C21: each listener has its control's kind.
  \<^item> C20: the captured listeners equal listeners reading the store at event
    time, so the snapshot is never stale.
  \<^item> C26: the \<^verbatim>\<open>undefined\<close> branch of render is never taken.
  \<^item> C11: clicking the current panel's link does nothing.
  \<^item> C27: a click on the disabled save button does nothing.

  Per-event unfolding lemmas (\<open>edit_unfold\<close>, \<open>blur_unfold\<close>,
  \<open>toggle_unfold\<close>) and the state each action leaves (\<open>edit_state\<close> and
  its siblings) give:
  \<^item> the one-step refinement \<open>ui_step_abs\<close>;
  \<^item> C2, its lift to whole runs of user actions, by induction on the run,
    carrying that the name stays plain;
  \<^item> C17, the dispatch order of the blur listener;
  \<^item> C13--C16, the scenarios;
  \<^item> C24: a user action dispatches at most two actions, so render runs at
    most twice for it.

  The store lemmas C5--C8 and C19 hold for any subscriber: routing,
  idempotence, notification count, the exact logger output, and the first call
  on an undefined state. The remaining claims:
  \<^item> C9: the render branch for an unknown page;
  \<^item> C18: the delay stub;
  \<^item> C22: termination of the event loop after any sequence of
    \<open>httpPut\<close> calls, with the callbacks run in deadline order;
  \<^item> C23: liveness, the callback of \<open>httpPut\<close> eventually runs, and not
    before 1000 ms;
  \<^item> C25: the loop after a batch of \<open>httpPut\<close> calls ends where one wait of
    1000 ms ends (\<open>drain_advance\<close>: the loop keeps the last deadline,
    \<open>last_deadline\<close>, and ends there).

  \<^bold>\<open>Bounds and fuel.\<close> Nothing is bounded or fuelled. Every loop of the
  program is a walk over a finite listener list (\<open>fold\<close>). Re-entrant
  dispatch cannot arise, because render never dispatches. Time in \<open>Http\<close> is a
  natural number of milliseconds. The event loop \<open>drain\<close> is a
  \<open>while_option\<close> that could in principle return \<open>None\<close>; it is proved
  to return \<open>Some\<close> for every queue, by the measure \<open>length (pending t)\<close>
  (\<open>measure_while_option_Some\<close>). Each turn sleeps until the earliest
  deadline and so runs at least that timer.

  \<^bold>\<open>Not modelled.\<close>
  \<^item> The page's HTML and CSS, which are not in the repository. The initial
    document is \<open>index_dom\<close>, built from the element ids the spec lists.
    \<open>click\<close> takes \<^verbatim>\<open>btn-save\<close> to be a form control such as
    \<^verbatim>\<open><button>\<close>, on which \<^verbatim>\<open>disabled\<close> suppresses clicks; the page's
    markup that would confirm it is not in the sources.
  \<^item> Redux's observable interop, which is read-only. Redux's argument checks,
    and its guards against calls while a reducer runs, which no value of the
    model can trigger: every action has a type, and the reducers are pure
    functions. The random suffix of Redux's private action types.
  \<^item> The logger's console formatting. \<^verbatim>\<open>logger()\<close> is read as the
    middleware factory of redux-logger 2; in redux-logger 3 the default export
    is the middleware itself, and calling it without arguments would fail. The
    sources pin no version.
  \<^item> Character references and NUL characters in attribute values. The
    theorems that depend on how the name field is read are stated for plain
    names, which have neither.
  \<^item> Markup interpretation of \<^verbatim>\<open>innerHTML\<close>. Contents are kept as
    strings. A name with markup is parsed as markup in the title; and a
    content name with a double quote can add attributes, or a second
    \<^verbatim>\<open>productName\<close> input, which the model does not follow.
\<close>

subsection \<open>The abstract specification of the page\<close>

text \<open>
  What the page promises, stated without the DOM or the store: which panel is
  shown, the product, and whether it has unsaved edits. Leaving the name field
  without typing keeps the name; every edit marks the product dirty; saving
  clears the flag and keeps the edits.
\<close>

datatype panel = DetailsPanel | AvailabilityPanel

record abs_state =
  a_panel :: panel
  a_product :: product
  a_dirty :: bool

fun abs_step :: "abs_state \<Rightarrow> ui_event \<Rightarrow> abs_state" where
  "abs_step a (Click BtnDetailsLink) = a\<lparr>a_panel := DetailsPanel\<rparr>"
| "abs_step a (Click BtnAvailabilityLink) = a\<lparr>a_panel := AvailabilityPanel\<rparr>"
| "abs_step a (Click BtnSave) = a\<lparr>a_dirty := False\<rparr>"
| "abs_step a (EditProductName v) =
     (if a_panel a = DetailsPanel
      then a\<lparr>a_product := (a_product a)\<lparr>product_name := v\<rparr>, a_dirty := True\<rparr> else a)"
| "abs_step a BlurProductName =
     (if a_panel a = DetailsPanel then a\<lparr>a_dirty := True\<rparr> else a)"
| "abs_step a ToggleInStock =
     (if a_panel a = AvailabilityPanel
      then a\<lparr>a_product := (a_product a)\<lparr>inStock := \<not> inStock (a_product a)\<rparr>, a_dirty := True\<rparr>
      else a)"

definition abs_sys :: "sys \<Rightarrow> abs_state" where
  "abs_sys x =
     \<lparr>a_panel = (if page_name (page (store_state (fst x))) = DETAILS then DetailsPanel
                 else AvailabilityPanel),
      a_product = product (store_state (fst x)),
      a_dirty = productDirty (store_state (fst x))\<rparr>"

text \<open>The names a run of user actions types are plain: the browser reads them back unchanged.\<close>

fun names_ok :: "ui_event list \<Rightarrow> bool" where
  "names_ok [] = True"
| "names_ok (EditProductName v # es) = (plain_name v \<and> names_ok es)"
| "names_ok (Click _ # es) = names_ok es"
| "names_ok (BlurProductName # es) = names_ok es"
| "names_ok (ToggleInStock # es) = names_ok es"

subsection \<open>Refinement\<close>

text \<open>One step of the refinement.\<close>

lemma ui_step_abs:
  assumes r: "reachable x" and q: "plain_name (product_name (product (store_state (fst x))))"
  shows "abs_sys (ui_step x e) = abs_step (abs_sys x) e"
proof -
  have inv: "sys_inv x" using reachable_inv [OF r] .
  let ?st = "store_state (fst x)"
  have cases: "page_name (page ?st) = DETAILS \<or> page_name (page ?st) = AVAILABILITY"
    using page_ok_cases [OF sys_inv_page [OF inv]] .
  show ?thesis
  proof (cases e)
    case (Click el)
    then show ?thesis
      using click_details_state [OF inv] click_availability_state [OF inv] click_save_state [OF inv]
      by (cases el) (simp_all add: abs_sys_def del: ui_step.simps)
  next
    case (EditProductName v)
    then show ?thesis
      using edit_state [OF inv] control_event_other_page [OF inv] cases
      by (auto simp: abs_sys_def simp del: ui_step.simps)
  next
    case BlurProductName
    then show ?thesis
      using blur_state [OF inv] control_event_other_page [OF inv] cases q
      by (auto simp: abs_sys_def simp del: ui_step.simps)
  next
    case ToggleInStock
    then show ?thesis
      using toggle_state [OF inv] control_event_other_page [OF inv] cases
      by (auto simp: abs_sys_def simp del: ui_step.simps)
  qed
qed

lemma abs_step_name:
  assumes "plain_name (product_name (a_product a))" and "names_ok (e # es)"
  shows "plain_name (product_name (a_product (abs_step a e)))"
proof (cases e)
  case (Click el)
  with assms show ?thesis by (cases el) simp_all
qed (use assms in simp_all)

text \<open>
  C2. The implementation refines the abstract specification: from every
  reachable system whose product name is plain, any run of user actions that
  types only plain names moves the abstract view of the system (panel,
  product, dirty flag) exactly as the specification's steps do. Plain names
  (\<open>plain_name\<close>) are those the browser reads back from the field unchanged;
  for others the page itself changes the name on a bare blur (the quote ends
  the attribute, \<^verbatim>\<open>&\<close> starts a character reference), and the
  specification's "leaving the field keeps the name" does not hold.
\<close>

theorem ui_run_refines:
  assumes "reachable x" and "plain_name (product_name (product (store_state (fst x))))"
    and "names_ok es"
  shows "abs_sys (ui_run x es) = fold (\<lambda>e a. abs_step a e) es (abs_sys x)"
  using assms
proof (induction es arbitrary: x)
  case Nil
  then show ?case by simp
next
  case (Cons e es)
  have step: "abs_sys (ui_step x e) = abs_step (abs_sys x) e"
    by (rule ui_step_abs [OF Cons.prems(1,2)])
  have "plain_name (product_name (a_product (abs_step (abs_sys x) e)))"
    using abs_step_name [of "abs_sys x" e es] Cons.prems(2,3) by (simp add: abs_sys_def)
  moreover have "a_product (abs_sys (ui_step x e)) = product (store_state (fst (ui_step x e)))"
    by (simp add: abs_sys_def)
  ultimately have q: "plain_name (product_name (product (store_state (fst (ui_step x e)))))"
    using step by metis
  have n: "names_ok es" using Cons.prems(3) by (cases e) simp_all
  have "abs_sys (ui_run (ui_step x e) es) = fold (\<lambda>e a. abs_step a e) es (abs_sys (ui_step x e))"
    by (rule Cons.IH [OF reachable.step [OF Cons.prems(1)] q n])
  with step show ?case by simp
qed

theorem ui_run_refines_witness:
  "reachable (main index_dom) \<and>
   plain_name (product_name (product (store_state (fst (main index_dom))))) \<and>
   names_ok [EditProductName ''Widget'', Click BtnAvailabilityLink, ToggleInStock, Click BtnSave] \<and>
   abs_sys (ui_run (main index_dom)
     [EditProductName ''Widget'', Click BtnAvailabilityLink, ToggleInStock, Click BtnSave]) =
   fold (\<lambda>e a. abs_step a e)
     [EditProductName ''Widget'', Click BtnAvailabilityLink, ToggleInStock, Click BtnSave]
     (abs_sys (main index_dom))"
proof -
  have q: "plain_name (product_name (product (store_state (fst (main index_dom)))))"
    by (simp add: defaultState_product_def plain_name_def dq_def)
  have n: "names_ok [EditProductName ''Widget'', Click BtnAvailabilityLink, ToggleInStock, Click BtnSave]"
    by (simp add: plain_name_def dq_def)
  show ?thesis
    using reachable_index q n ui_run_refines [OF reachable_index q n] by blast
qed

subsection \<open>End-to-end scenarios\<close>

text \<open>
  C13. Scenario 1, the first paint: the title shows the default product's name,
  the details tab is active and the availability tab is not, and the save
  button is disabled since nothing is dirty.
\<close>

theorem scenario_initial_render:
  "product_title (snd (main index_dom)) = ''Best Product ever!'' \<and>
   btn_details_active (snd (main index_dom)) \<and> \<not> btn_availability_active (snd (main index_dom)) \<and>
   btn_save_disabled (snd (main index_dom))"
  using sys_inv_dom_fields [OF reachable_inv [OF reachable_index]]
    sys_inv_save_disabled [OF reachable_inv [OF reachable_index]]
  by (simp add: defaultState_page_def defaultState_product_def defaultState_productDirty_def)

text \<open>
  C14. Scenario 2: typing \<^verbatim>\<open>Widget\<close> into the name field and leaving it makes
  the product dirty, enables the save button, sets the name and keeps the
  in-stock flag.
\<close>

theorem scenario_edit_name:
  "productDirty (store_state (fst (ui_step (main index_dom) (EditProductName ''Widget'')))) \<and>
   \<not> btn_save_disabled (snd (ui_step (main index_dom) (EditProductName ''Widget''))) \<and>
   product (store_state (fst (ui_step (main index_dom) (EditProductName ''Widget'')))) =
     \<lparr>product_name = ''Widget'', inStock = True\<rparr>"
proof -
  let ?x = "ui_step (main index_dom) (EditProductName ''Widget'')"
  have inv: "sys_inv ?x" by (rule reachable_inv [OF reachable.step [OF reachable_index]])
  have "store_state (fst ?x) =
      (store_state (fst (main index_dom)))\<lparr>product := defaultState_product\<lparr>product_name := ''Widget''\<rparr>,
                                           productDirty := True\<rparr>"
    using edit_state [OF reachable_inv [OF reachable_index]]
    by (simp add: defaultState_page_def del: ui_step.simps)
  then show ?thesis
    using sys_inv_save_disabled [OF inv] by (simp add: defaultState_product_def del: ui_step.simps)
qed

text \<open>
  C15. Scenario 3: clicking save after that edit clears the dirty flag and
  disables the save button again; the edited product is kept.
\<close>

theorem scenario_save:
  "\<not> productDirty (store_state (fst (ui_run (main index_dom) [EditProductName ''Widget'', Click BtnSave]))) \<and>
   btn_save_disabled (snd (ui_run (main index_dom) [EditProductName ''Widget'', Click BtnSave])) \<and>
   product (store_state (fst (ui_run (main index_dom) [EditProductName ''Widget'', Click BtnSave]))) =
     \<lparr>product_name = ''Widget'', inStock = True\<rparr>"
proof -
  let ?x1 = "ui_step (main index_dom) (EditProductName ''Widget'')"
  let ?x2 = "ui_step ?x1 (Click BtnSave)"
  have r1: "reachable ?x1" by (rule reachable.step [OF reachable_index])
  have inv2: "sys_inv ?x2" by (rule reachable_inv [OF reachable.step [OF r1]])
  have s1: "store_state (fst ?x1) =
      (store_state (fst (main index_dom)))\<lparr>product := defaultState_product\<lparr>product_name := ''Widget''\<rparr>,
                                           productDirty := True\<rparr>"
    using edit_state [OF reachable_inv [OF reachable_index]]
    by (simp add: defaultState_page_def del: ui_step.simps)
  have "store_state (fst ?x2) = (store_state (fst ?x1))\<lparr>productDirty := False\<rparr>"
    by (rule click_save_state [OF reachable_inv [OF r1]])
  with s1 show ?thesis
    using sys_inv_save_disabled [OF inv2] by (simp add: defaultState_product_def del: ui_step.simps)
qed

text \<open>
  C16. Scenario 4: switching to the availability tab and unticking the in-stock
  box clears the flag, marks the product dirty, and leaves the availability tab
  active and the details tab not.
\<close>

theorem scenario_availability_toggle:
  "\<not> inStock (product (store_state (fst (ui_run (main index_dom) [Click BtnAvailabilityLink, ToggleInStock])))) \<and>
   productDirty (store_state (fst (ui_run (main index_dom) [Click BtnAvailabilityLink, ToggleInStock]))) \<and>
   btn_availability_active (snd (ui_run (main index_dom) [Click BtnAvailabilityLink, ToggleInStock])) \<and>
   \<not> btn_details_active (snd (ui_run (main index_dom) [Click BtnAvailabilityLink, ToggleInStock]))"
proof -
  let ?x1 = "ui_step (main index_dom) (Click BtnAvailabilityLink)"
  let ?x2 = "ui_step ?x1 ToggleInStock"
  have r1: "reachable ?x1" and av: "page_name (page (store_state (fst ?x1))) = AVAILABILITY"
    using reachable_index_availability by auto
  have inv2: "sys_inv ?x2" by (rule reachable_inv [OF reachable.step [OF r1]])
  have s1: "store_state (fst ?x1) =
      (store_state (fst (main index_dom)))\<lparr>page := \<lparr>page_name = AVAILABILITY, page_title = ''Product Availability''\<rparr>\<rparr>"
    by (rule click_availability_state [OF reachable_inv [OF reachable_index]])
  have "store_state (fst ?x2) =
      (store_state (fst ?x1))\<lparr>product := (product (store_state (fst ?x1)))\<lparr>inStock :=
         \<not> inStock (product (store_state (fst ?x1)))\<rparr>, productDirty := True\<rparr>"
    by (rule toggle_state [OF reachable_inv [OF r1] av])
  with s1 show ?thesis
    using sys_inv_dom_fields [OF inv2] by (simp add: defaultState_product_def del: ui_step.simps)
qed

end
